theory Spec2Isabelle
  imports Main "HOL-Library.Word"
begin

unbundle bit_operations_syntax

section \<open>ISA table (tools/zplc\_asm.py)\<close>

text \<open>
  The \<^verbatim>\<open>Opcode\<close> enumeration of the assembler. Each constructor is the Python member
  of the same name (\<^verbatim>\<open>Opcode.NOP\<close>, ...); \<open>opcode_value\<close> is its \<^verbatim>\<open>.value\<close> and
  \<open>opcode_name\<close> its \<^verbatim>\<open>.name\<close>.
\<close>

datatype opcode =
    Opcode_NOP | Opcode_HALT | Opcode_BREAK | Opcode_GET_TICKS
  | Opcode_DUP | Opcode_DROP | Opcode_SWAP | Opcode_OVER | Opcode_ROT
  | Opcode_ADD | Opcode_SUB | Opcode_MUL | Opcode_DIV | Opcode_MOD | Opcode_NEG | Opcode_ABS
  | Opcode_ADDF | Opcode_SUBF | Opcode_MULF | Opcode_DIVF | Opcode_NEGF | Opcode_ABSF
  | Opcode_AND | Opcode_OR | Opcode_XOR | Opcode_NOT | Opcode_SHL | Opcode_SHR | Opcode_SAR
  | Opcode_EQ | Opcode_NE | Opcode_LT | Opcode_LE | Opcode_GT | Opcode_GE | Opcode_LTU
  | Opcode_GTU
  | Opcode_PUSH8 | Opcode_JR | Opcode_JRZ | Opcode_JRNZ
  | Opcode_LOAD8 | Opcode_LOAD16 | Opcode_LOAD32 | Opcode_LOAD64
  | Opcode_STORE8 | Opcode_STORE16 | Opcode_STORE32 | Opcode_STORE64
  | Opcode_PUSH16 | Opcode_JMP | Opcode_JZ | Opcode_JNZ | Opcode_CALL | Opcode_RET
  | Opcode_I2F | Opcode_F2I | Opcode_I2B | Opcode_EXT8 | Opcode_EXT16 | Opcode_ZEXT8
  | Opcode_ZEXT16
  | Opcode_PUSH32

fun opcode_value :: "opcode \<Rightarrow> int" where
  "opcode_value Opcode_NOP = 0x00" | "opcode_value Opcode_HALT = 0x01"
| "opcode_value Opcode_BREAK = 0x02" | "opcode_value Opcode_GET_TICKS = 0x03"
| "opcode_value Opcode_DUP = 0x10" | "opcode_value Opcode_DROP = 0x11"
| "opcode_value Opcode_SWAP = 0x12" | "opcode_value Opcode_OVER = 0x13"
| "opcode_value Opcode_ROT = 0x14"
| "opcode_value Opcode_ADD = 0x20" | "opcode_value Opcode_SUB = 0x21"
| "opcode_value Opcode_MUL = 0x22" | "opcode_value Opcode_DIV = 0x23"
| "opcode_value Opcode_MOD = 0x24" | "opcode_value Opcode_NEG = 0x25"
| "opcode_value Opcode_ABS = 0x26"
| "opcode_value Opcode_ADDF = 0x28" | "opcode_value Opcode_SUBF = 0x29"
| "opcode_value Opcode_MULF = 0x2A" | "opcode_value Opcode_DIVF = 0x2B"
| "opcode_value Opcode_NEGF = 0x2C" | "opcode_value Opcode_ABSF = 0x2D"
| "opcode_value Opcode_AND = 0x30" | "opcode_value Opcode_OR = 0x31"
| "opcode_value Opcode_XOR = 0x32" | "opcode_value Opcode_NOT = 0x33"
| "opcode_value Opcode_SHL = 0x34" | "opcode_value Opcode_SHR = 0x35"
| "opcode_value Opcode_SAR = 0x36"
| "opcode_value Opcode_EQ = 0x38" | "opcode_value Opcode_NE = 0x39"
| "opcode_value Opcode_LT = 0x3A" | "opcode_value Opcode_LE = 0x3B"
| "opcode_value Opcode_GT = 0x3C" | "opcode_value Opcode_GE = 0x3D"
| "opcode_value Opcode_LTU = 0x3E" | "opcode_value Opcode_GTU = 0x3F"
| "opcode_value Opcode_PUSH8 = 0x40" | "opcode_value Opcode_JR = 0x50"
| "opcode_value Opcode_JRZ = 0x51" | "opcode_value Opcode_JRNZ = 0x52"
| "opcode_value Opcode_LOAD8 = 0x80" | "opcode_value Opcode_LOAD16 = 0x81"
| "opcode_value Opcode_LOAD32 = 0x82" | "opcode_value Opcode_LOAD64 = 0x83"
| "opcode_value Opcode_STORE8 = 0x84" | "opcode_value Opcode_STORE16 = 0x85"
| "opcode_value Opcode_STORE32 = 0x86" | "opcode_value Opcode_STORE64 = 0x87"
| "opcode_value Opcode_PUSH16 = 0x88" | "opcode_value Opcode_JMP = 0x90"
| "opcode_value Opcode_JZ = 0x91" | "opcode_value Opcode_JNZ = 0x92"
| "opcode_value Opcode_CALL = 0x93" | "opcode_value Opcode_RET = 0x94"
| "opcode_value Opcode_I2F = 0xA0" | "opcode_value Opcode_F2I = 0xA1"
| "opcode_value Opcode_I2B = 0xA2" | "opcode_value Opcode_EXT8 = 0xA3"
| "opcode_value Opcode_EXT16 = 0xA4" | "opcode_value Opcode_ZEXT8 = 0xA5"
| "opcode_value Opcode_ZEXT16 = 0xA6"
| "opcode_value Opcode_PUSH32 = 0xC0"

fun opcode_name :: "opcode \<Rightarrow> string" where
  "opcode_name Opcode_NOP = ''NOP''" | "opcode_name Opcode_HALT = ''HALT''"
| "opcode_name Opcode_BREAK = ''BREAK''" | "opcode_name Opcode_GET_TICKS = ''GET_TICKS''"
| "opcode_name Opcode_DUP = ''DUP''" | "opcode_name Opcode_DROP = ''DROP''"
| "opcode_name Opcode_SWAP = ''SWAP''" | "opcode_name Opcode_OVER = ''OVER''"
| "opcode_name Opcode_ROT = ''ROT''" | "opcode_name Opcode_ADD = ''ADD''"
| "opcode_name Opcode_SUB = ''SUB''" | "opcode_name Opcode_MUL = ''MUL''"
| "opcode_name Opcode_DIV = ''DIV''" | "opcode_name Opcode_MOD = ''MOD''"
| "opcode_name Opcode_NEG = ''NEG''" | "opcode_name Opcode_ABS = ''ABS''"
| "opcode_name Opcode_ADDF = ''ADDF''" | "opcode_name Opcode_SUBF = ''SUBF''"
| "opcode_name Opcode_MULF = ''MULF''" | "opcode_name Opcode_DIVF = ''DIVF''"
| "opcode_name Opcode_NEGF = ''NEGF''" | "opcode_name Opcode_ABSF = ''ABSF''"
| "opcode_name Opcode_AND = ''AND''" | "opcode_name Opcode_OR = ''OR''"
| "opcode_name Opcode_XOR = ''XOR''" | "opcode_name Opcode_NOT = ''NOT''"
| "opcode_name Opcode_SHL = ''SHL''" | "opcode_name Opcode_SHR = ''SHR''"
| "opcode_name Opcode_SAR = ''SAR''" | "opcode_name Opcode_EQ = ''EQ''"
| "opcode_name Opcode_NE = ''NE''" | "opcode_name Opcode_LT = ''LT''"
| "opcode_name Opcode_LE = ''LE''" | "opcode_name Opcode_GT = ''GT''"
| "opcode_name Opcode_GE = ''GE''" | "opcode_name Opcode_LTU = ''LTU''"
| "opcode_name Opcode_GTU = ''GTU''" | "opcode_name Opcode_PUSH8 = ''PUSH8''"
| "opcode_name Opcode_JR = ''JR''" | "opcode_name Opcode_JRZ = ''JRZ''"
| "opcode_name Opcode_JRNZ = ''JRNZ''" | "opcode_name Opcode_LOAD8 = ''LOAD8''"
| "opcode_name Opcode_LOAD16 = ''LOAD16''" | "opcode_name Opcode_LOAD32 = ''LOAD32''"
| "opcode_name Opcode_LOAD64 = ''LOAD64''" | "opcode_name Opcode_STORE8 = ''STORE8''"
| "opcode_name Opcode_STORE16 = ''STORE16''" | "opcode_name Opcode_STORE32 = ''STORE32''"
| "opcode_name Opcode_STORE64 = ''STORE64''" | "opcode_name Opcode_PUSH16 = ''PUSH16''"
| "opcode_name Opcode_JMP = ''JMP''" | "opcode_name Opcode_JZ = ''JZ''"
| "opcode_name Opcode_JNZ = ''JNZ''" | "opcode_name Opcode_CALL = ''CALL''"
| "opcode_name Opcode_RET = ''RET''" | "opcode_name Opcode_I2F = ''I2F''"
| "opcode_name Opcode_F2I = ''F2I''" | "opcode_name Opcode_I2B = ''I2B''"
| "opcode_name Opcode_EXT8 = ''EXT8''" | "opcode_name Opcode_EXT16 = ''EXT16''"
| "opcode_name Opcode_ZEXT8 = ''ZEXT8''" | "opcode_name Opcode_ZEXT16 = ''ZEXT16''"
| "opcode_name Opcode_PUSH32 = ''PUSH32''"

text \<open>Iteration over the enumeration (\<^verbatim>\<open>for op in Opcode\<close>) follows declaration order.\<close>

definition all_opcodes :: "opcode list" where
  "all_opcodes =
    [Opcode_NOP, Opcode_HALT, Opcode_BREAK, Opcode_GET_TICKS,
     Opcode_DUP, Opcode_DROP, Opcode_SWAP, Opcode_OVER,
     Opcode_ROT, Opcode_ADD, Opcode_SUB, Opcode_MUL,
     Opcode_DIV, Opcode_MOD, Opcode_NEG, Opcode_ABS,
     Opcode_ADDF, Opcode_SUBF, Opcode_MULF, Opcode_DIVF,
     Opcode_NEGF, Opcode_ABSF, Opcode_AND, Opcode_OR,
     Opcode_XOR, Opcode_NOT, Opcode_SHL, Opcode_SHR,
     Opcode_SAR, Opcode_EQ, Opcode_NE, Opcode_LT,
     Opcode_LE, Opcode_GT, Opcode_GE, Opcode_LTU,
     Opcode_GTU, Opcode_PUSH8, Opcode_JR, Opcode_JRZ,
     Opcode_JRNZ, Opcode_LOAD8, Opcode_LOAD16, Opcode_LOAD32,
     Opcode_LOAD64, Opcode_STORE8, Opcode_STORE16, Opcode_STORE32,
     Opcode_STORE64, Opcode_PUSH16, Opcode_JMP, Opcode_JZ,
     Opcode_JNZ, Opcode_CALL, Opcode_RET, Opcode_I2F,
     Opcode_F2I, Opcode_I2B, Opcode_EXT8, Opcode_EXT16,
     Opcode_ZEXT8, Opcode_ZEXT16, Opcode_PUSH32]"

text \<open>
  \<^verbatim>\<open>get_operand_size(opcode)\<close>: the two special cases first, then the range-based
  encoding. The argument is a Python integer.
\<close>

definition get_operand_size :: "int \<Rightarrow> int" where
  "get_operand_size opc =
     (if opc = 0x94 then 0
      else if 0xA0 \<le> opc \<and> opc \<le> 0xA6 then 0
      else if opc < 0x40 then 0
      else if opc < 0x80 then 1
      else if opc < 0xC0 then 2
      else 4)"

text \<open>
  The lookup tables built at import time: \<^verbatim>\<open>OPCODE_BY_NAME = {op.name: op for op in Opcode}\<close>
  and \<^verbatim>\<open>OPERAND_SIZE = {op: get_operand_size(op.value) for op in Opcode}\<close>. Every member is
  a key of \<open>OPERAND_SIZE\<close>, so the lookup is a total function on \<open>opcode\<close>. The disassembler's
  reverse table is \<^verbatim>\<open>opcode_names = {op.value: op.name for op in Opcode}\<close>.
\<close>

definition OPCODE_BY_NAME :: "string \<rightharpoonup> opcode" where
  "OPCODE_BY_NAME = map_of (map (\<lambda>op. (opcode_name op, op)) all_opcodes)"

definition OPERAND_SIZE :: "opcode \<Rightarrow> int" where
  "OPERAND_SIZE op = get_operand_size (opcode_value op)"

definition opcode_names :: "int \<rightharpoonup> string" where
  "opcode_names = map_of (map (\<lambda>op. (opcode_value op, opcode_name op)) all_opcodes)"

text \<open>
  The numeric-range classes as the specification words them: 0 bytes for 0x00-0x3F, 1 byte
  for 0x40-0x7F, 2 bytes for 0x80-0xBF, 4 bytes for 0xC0-0xFF; and the two exceptions, the
  single opcode 0x94 and the block 0xA0-0xA6.
\<close>

definition range_width :: "int \<Rightarrow> int" where
  "range_width opc =
     (if 0x00 \<le> opc \<and> opc \<le> 0x3F then 0
      else if 0x40 \<le> opc \<and> opc \<le> 0x7F then 1
      else if 0x80 \<le> opc \<and> opc \<le> 0xBF then 2
      else 4)"

definition width_exception :: "int \<Rightarrow> bool" where
  "width_exception opc = (opc = 0x94 \<or> opc \<in> {0xA0..0xA6})"

section \<open>Python strings\<close>

text \<open>
  Source text is a list of characters, a character being its code point below 256.
  Whitespace is what \<^verbatim>\<open>str.isspace\<close> accepts there: \<^verbatim>\<open>\t\<close>, \<^verbatim>\<open>\n\<close>, \<^verbatim>\<open>\v\<close>, \<^verbatim>\<open>\f\<close>,
  \<^verbatim>\<open>\r\<close>, \<^verbatim>\<open>\x1c\<close> to \<^verbatim>\<open>\x1f\<close>, the space, \<^verbatim>\<open>\x85\<close> and \<^verbatim>\<open>\xa0\<close>; the same set is what
  \<^verbatim>\<open>str.strip\<close>, \<^verbatim>\<open>str.split\<close>, \<^verbatim>\<open>int\<close> and the regular expression \<^verbatim>\<open>\s\<close> take for
  whitespace. Case conversion is written for the 26 ASCII letters. The assembler converts
  label names and identifiers, which are ASCII by their regular expression, and mnemonics;
  a mnemonic with another letter in it matches no opcode and no directive before or after
  conversion, so that only the text carried by its error message can differ.
\<close>

definition py_isspace :: "char \<Rightarrow> bool" where
  "py_isspace c = (of_char c \<in> {9, 10, 11, 12, 13, 28, 29, 30, 31, 32, 133, 160 :: nat})"

definition py_strip :: "string \<Rightarrow> string" where
  "py_strip s = rev (dropWhile py_isspace (rev (dropWhile py_isspace s)))"

definition is_upper :: "char \<Rightarrow> bool" where
  "is_upper c = (65 \<le> (of_char c :: nat) \<and> (of_char c :: nat) \<le> 90)"

definition is_lower :: "char \<Rightarrow> bool" where
  "is_lower c = (97 \<le> (of_char c :: nat) \<and> (of_char c :: nat) \<le> 122)"

definition is_digit :: "char \<Rightarrow> bool" where
  "is_digit c = (48 \<le> (of_char c :: nat) \<and> (of_char c :: nat) \<le> 57)"

definition py_upper :: "string \<Rightarrow> string" where
  "py_upper s = map (\<lambda>c. if is_lower c then char_of (of_char c - (32::nat)) else c) s"

definition py_lower :: "string \<Rightarrow> string" where
  "py_lower s = map (\<lambda>c. if is_upper c then char_of (of_char c + (32::nat)) else c) s"

definition startswith :: "string \<Rightarrow> string \<Rightarrow> bool" where
  "startswith s p = (take (length p) s = p)"

definition endswith :: "string \<Rightarrow> string \<Rightarrow> bool" where
  "endswith s p = (length p \<le> length s \<and> drop (length s - length p) s = p)"

text \<open>
  \<^verbatim>\<open>str.splitlines()\<close>: a line ends at \<^verbatim>\<open>\n\<close>, \<^verbatim>\<open>\r\<close>, \<^verbatim>\<open>\r\n\<close>, \<^verbatim>\<open>\v\<close>, \<^verbatim>\<open>\f\<close>,
  \<^verbatim>\<open>\x1c\<close>, \<^verbatim>\<open>\x1d\<close>, \<^verbatim>\<open>\x1e\<close> or \<^verbatim>\<open>\x85\<close>; the terminators are dropped and a
  terminator at the very end opens no further line. The accumulator holds the current line, reversed.
\<close>

definition is_linebreak :: "char \<Rightarrow> bool" where
  "is_linebreak c = (of_char c \<in> {10, 11, 12, 13, 28, 29, 30, 133 :: nat})"

fun splitlines_acc :: "string \<Rightarrow> string \<Rightarrow> string list" where
  "splitlines_acc acc [] = (if acc = [] then [] else [rev acc])"
| "splitlines_acc acc (c # cs) =
     (if c = CHR 0x0D then
        (case cs of
           d # ds \<Rightarrow> if d = CHR 0x0A then rev acc # splitlines_acc [] ds
                     else rev acc # splitlines_acc [] cs
         | [] \<Rightarrow> [rev acc])
      else if is_linebreak c then rev acc # splitlines_acc [] cs
      else splitlines_acc (c # acc) cs)"

definition splitlines :: "string \<Rightarrow> string list" where
  "splitlines s = splitlines_acc [] s"

text \<open>\<^verbatim>\<open>s.split(sep)\<close> for a one-character separator: always at least one field.\<close>

fun split_on_acc :: "char \<Rightarrow> string \<Rightarrow> string \<Rightarrow> string list" where
  "split_on_acc sep acc [] = [rev acc]"
| "split_on_acc sep acc (c # cs) =
     (if c = sep then rev acc # split_on_acc sep [] cs else split_on_acc sep (c # acc) cs)"

definition split_on :: "char \<Rightarrow> string \<Rightarrow> string list" where
  "split_on sep s = split_on_acc sep [] s"

text \<open>
  \<^verbatim>\<open>line.split(None, 1)\<close> on a line that is stripped and not empty: the first
  whitespace-free token, and the remainder after the whitespace run (the empty string when
  there is no second part, as \<^verbatim>\<open>parts[1] if len(parts) > 1 else ""\<close> gives).
\<close>

definition split_first :: "string \<Rightarrow> string \<times> string" where
  "split_first line =
     (takeWhile (\<lambda>c. \<not> py_isspace c) line,
      dropWhile py_isspace (dropWhile (\<lambda>c. \<not> py_isspace c) line))"

text \<open>The character classes of the two regular expressions.\<close>

definition is_ident_start :: "char \<Rightarrow> bool" where
  "is_ident_start c = (is_lower c \<or> is_upper c \<or> c = CHR ''_'')"

definition is_ident_char :: "char \<Rightarrow> bool" where
  "is_ident_char c = (is_ident_start c \<or> is_digit c)"

text \<open>\<^verbatim>\<open>re.match(r'^[a-zA-Z_][a-zA-Z0-9_]*$', s)\<close> on a stripped string.\<close>

definition is_identifier :: "string \<Rightarrow> bool" where
  "is_identifier s = (case s of [] \<Rightarrow> False | c # cs \<Rightarrow> is_ident_start c \<and> list_all is_ident_char cs)"

text \<open>
  \<^verbatim>\<open>re.match(r'^([a-zA-Z_][a-zA-Z0-9_]*)\s*:', line)\<close>: the three character classes are
  disjoint, so the greedy match is the only one. The result is group 1 and the text after
  the end of the match.
\<close>

definition label_match :: "string \<Rightarrow> (string \<times> string) option" where
  "label_match line =
     (case line of
        [] \<Rightarrow> None
      | c # cs \<Rightarrow>
          if is_ident_start c then
            (case dropWhile py_isspace (dropWhile is_ident_char line) of
               [] \<Rightarrow> None
             | d # ds \<Rightarrow> if d = CHR '':'' then Some (takeWhile is_ident_char line, ds) else None)
          else None)"

subsection \<open>Integer literals\<close>

text \<open>
  \<^verbatim>\<open>int(s, base)\<close> for the bases the assembler uses (2, 8, 10, 16), on ASCII text:
  surrounding whitespace, one optional sign, the base prefix (\<^verbatim>\<open>0x\<close>, \<^verbatim>\<open>0b\<close>, \<^verbatim>\<open>0o\<close>,
  either case, for bases 16, 2, 8) with one optional underscore after it, then digits with
  single underscores between them. \<open>None\<close> stands for \<^verbatim>\<open>ValueError\<close>. The interpreter's
  limit on the number of decimal digits is not part of the model.
\<close>

definition digit_value :: "char \<Rightarrow> nat option" where
  "digit_value c =
     (if is_digit c then Some (of_char c - 48)
      else if is_lower c then Some (of_char c - 87)
      else if is_upper c then Some (of_char c - 55)
      else None)"

fun scan_digits :: "nat \<Rightarrow> bool \<Rightarrow> nat \<Rightarrow> string \<Rightarrow> nat option" where
  "scan_digits base prev_us acc [] = (if prev_us then None else Some acc)"
| "scan_digits base prev_us acc (c # cs) =
     (if c = CHR ''_'' then (if prev_us then None else scan_digits base True acc cs)
      else (case digit_value c of
              None \<Rightarrow> None
            | Some d \<Rightarrow> if d < base then scan_digits base False (acc * base + d) cs else None))"

definition has_base_prefix :: "nat \<Rightarrow> string \<Rightarrow> bool" where
  "has_base_prefix base s =
     (case s of
        c # d # _ \<Rightarrow>
          c = CHR ''0'' \<and>
          ((base = 16 \<and> (d = CHR ''x'' \<or> d = CHR ''X'')) \<or>
           (base = 8 \<and> (d = CHR ''o'' \<or> d = CHR ''O'')) \<or>
           (base = 2 \<and> (d = CHR ''b'' \<or> d = CHR ''B'')))
      | _ \<Rightarrow> False)"

definition py_int :: "nat \<Rightarrow> string \<Rightarrow> int option" where
  "py_int base s0 =
     (let s = py_strip s0;
          neg = (s \<noteq> [] \<and> hd s = CHR ''-'');
          s1 = (if s \<noteq> [] \<and> (hd s = CHR ''-'' \<or> hd s = CHR ''+'') then tl s else s);
          s2 = (if has_base_prefix base s1 then drop 2 s1 else s1);
          s3 = (if has_base_prefix base s1 \<and> s2 \<noteq> [] \<and> hd s2 = CHR ''_'' then tl s2 else s2)
      in if s3 = [] \<or> hd s3 = CHR ''_'' then None
         else map_option (\<lambda>n. if neg then - int n else int n) (scan_digits base False 0 s3))"

text \<open>
  \<^verbatim>\<open>parse_number\<close>. \<open>None\<close> is the \<^verbatim>\<open>ValueError\<close> (raised for the empty string and by
  \<^verbatim>\<open>int\<close>). A character literal is recognised first; a backslash literal falls through to
  \<^verbatim>\<open>ord(s[1])\<close> when the escape is unknown.
\<close>

definition escapes :: "char \<rightharpoonup> int" where
  "escapes = [CHR ''n'' \<mapsto> 10, CHR ''r'' \<mapsto> 13, CHR ''t'' \<mapsto> 9, CHR 0x5C \<mapsto> 92,
              CHR 0x27 \<mapsto> 39, CHR ''0'' \<mapsto> 0]"

definition parse_number :: "string \<Rightarrow> int option" where
  "parse_number s0 =
     (let s = py_strip s0 in
      if s = [] then None
      else if startswith s [CHR 0x27] \<and> endswith s [CHR 0x27] \<and> length s \<ge> 3 then
        (if s ! 1 = CHR 0x5C \<and> length s \<ge> 4 \<and> escapes (s ! 2) \<noteq> None
         then escapes (s ! 2)
         else Some (int (of_char (s ! 1))))
      else
        (let negative = (hd s = CHR ''-'');
             s1 = (if hd s = CHR ''-'' \<or> hd s = CHR ''+'' then tl s else s);
             v = (if startswith (py_lower s1) ''0x'' then py_int 16 s1
                  else if startswith (py_lower s1) ''0b'' then py_int 2 s1
                  else if startswith (py_lower s1) ''0o'' then py_int 8 s1
                  else py_int 10 s1)
         in map_option (\<lambda>x. if negative then - x else x) v))"

section \<open>Assembler (tools/zplc\_asm.py)\<close>

text \<open>
  The dataclasses \<^verbatim>\<open>Label\<close> and \<^verbatim>\<open>Instruction\<close>, and the fields of \<^verbatim>\<open>ZPLCAssembler\<close>
  (without \<^verbatim>\<open>verbose\<close>, which only drives logging). Addresses are Python integers.
  \<^verbatim>\<open>entry_point\<close> holds an integer or, between \<^verbatim>\<open>.ENTRY label\<close> and pass 2, a string.
  The dictionary \<^verbatim>\<open>labels\<close> is the list of its items in insertion order; a key is inserted
  only after the check that it is absent, and looked up with \<open>map_of\<close>.
\<close>

type_synonym byte = "8 word"

record label =
  name :: string
  address :: int
  line_num :: nat

record instruction =
  opcode :: opcode
  operand :: "int option"
  operand_label :: "string option"
  line_num :: nat
  address :: int

datatype entry = Entry_int int | Entry_str string

record assembler =
  instructions :: "instruction list"
  labels :: "(string \<times> label) list"
  entry_point :: entry
  current_address :: int

text \<open>
  Exceptions as values. \<open>AssemblerError m n l\<close> is \<^verbatim>\<open>AssemblerError(message, line_num, line)\<close>;
  the message is kept as its kind and the values formatted into it. \<open>ValueError\<close> and
  \<open>Struct_error\<close> are the library exceptions of \<^verbatim>\<open>int\<close>/\<^verbatim>\<open>parse_number\<close> and of
  \<^verbatim>\<open>struct.pack\<close>.
\<close>

datatype message =
    Duplicate_label string
  | Unknown_instruction string
  | Requires_operand string
  | Takes_no_operand string
  | Invalid_operand string
  | Invalid_ORG_address string
  | Invalid_entry_point string
  | Unknown_directive string
  | Wrapped_exception
  | Undefined_label string
  | Relative_jump_out_of_range string int
  | Undefined_entry_point_label string

datatype failure = AssemblerError message nat string | ValueError | Struct_error

definition initial_assembler :: assembler where
  "initial_assembler =
     \<lparr>instructions = [], labels = [], entry_point = Entry_int 0, current_address = 0\<rparr>"

definition parse_operand :: "string \<Rightarrow> nat \<Rightarrow> failure + (int option \<times> string option)" where
  "parse_operand operand_str0 ln =
     (let operand_str = py_strip operand_str0 in
      if operand_str = [] then Inr (None, None)
      else if is_identifier operand_str then Inr (None, Some operand_str)
      else (case parse_number operand_str of
              Some v \<Rightarrow> Inr (Some v, None)
            | None \<Rightarrow> Inl (AssemblerError (Invalid_operand operand_str) ln [])))"

text \<open>
  The loop of the \<^verbatim>\<open>.DB\<close>/\<^verbatim>\<open>.BYTE\<close> branch: each value is parsed (a \<^verbatim>\<open>ValueError\<close>
  is not caught here) and dropped, and the address moves on by one.
\<close>

fun define_bytes :: "string list \<Rightarrow> assembler \<Rightarrow> failure + assembler" where
  "define_bytes [] st = Inr st"
| "define_bytes (val_str # rest) st =
     (case parse_number (py_strip val_str) of
        None \<Rightarrow> Inl ValueError
      | Some val \<Rightarrow> define_bytes rest (st\<lparr>current_address := current_address st + 1\<rparr>))"

definition handle_directive :: "string \<Rightarrow> string \<Rightarrow> nat \<Rightarrow> assembler \<Rightarrow> failure + assembler" where
  "handle_directive directive operand_text ln st =
     (if directive = ''.ORG'' then
        (case parse_number operand_text of
           Some v \<Rightarrow> Inr (st\<lparr>current_address := v\<rparr>)
         | None \<Rightarrow> Inl (AssemblerError (Invalid_ORG_address operand_text) ln []))
      else if directive = ''.ENTRY'' then
        (let operand_s = py_strip operand_text in
         if is_identifier operand_s then Inr (st\<lparr>entry_point := Entry_str (py_upper operand_s)\<rparr>)
         else (case parse_number operand_s of
                 Some v \<Rightarrow> Inr (st\<lparr>entry_point := Entry_int v\<rparr>)
               | None \<Rightarrow> Inl (AssemblerError (Invalid_entry_point operand_s) ln [])))
      else if directive = ''.DB'' \<or> directive = ''.BYTE'' then
        define_bytes (split_on CHR '','' operand_text) st
      else Inl (AssemblerError (Unknown_directive directive) ln []))"

text \<open>
  \<^verbatim>\<open>parse_line\<close>, in two parts: \<open>parse_statement\<close> is the body from "Parse instruction"
  on, applied to what is left of the line after an optional label.
\<close>

definition parse_statement :: "string \<Rightarrow> nat \<Rightarrow> assembler \<Rightarrow> failure + assembler" where
  "parse_statement line ln st =
     (let mnemonic = py_upper (fst (split_first line));
          operand_str = snd (split_first line)
      in if startswith mnemonic ''.'' then handle_directive mnemonic operand_str ln st
         else (case OPCODE_BY_NAME mnemonic of
                 None \<Rightarrow> Inl (AssemblerError (Unknown_instruction mnemonic) ln line)
               | Some opc \<Rightarrow>
                   (let operand_size = OPERAND_SIZE opc;
                        parsed =
                          (if operand_size > 0 then
                             (if operand_str = []
                              then Inl (AssemblerError (Requires_operand mnemonic) ln line)
                              else parse_operand operand_str ln)
                           else
                             (if operand_str \<noteq> []
                              then Inl (AssemblerError (Takes_no_operand mnemonic) ln line)
                              else Inr (None, None)))
                    in case parsed of
                         Inl e \<Rightarrow> Inl e
                       | Inr (operand_val, operand_lbl) \<Rightarrow>
                           Inr (st\<lparr>instructions := instructions st @
                                      [\<lparr>opcode = opc, operand = operand_val,
                                        operand_label = operand_lbl, line_num = ln,
                                        address = current_address st\<rparr>],
                                    current_address := current_address st + (1 + operand_size)\<rparr>))))"

definition parse_line :: "string \<Rightarrow> nat \<Rightarrow> assembler \<Rightarrow> failure + assembler" where
  "parse_line line0 ln st =
     (let line = py_strip (takeWhile (\<lambda>c. c \<noteq> CHR '';'') line0) in
      if line = [] then Inr st
      else (case label_match line of
              Some (g, rest) \<Rightarrow>
                (let label_name = py_upper g in
                 if map_of (labels st) label_name \<noteq> None
                 then Inl (AssemblerError (Duplicate_label label_name) ln line)
                 else (let st1 = st\<lparr>labels := labels st @
                                   [(label_name,
                                     \<lparr>label.name = label_name,
                                      label.address = current_address st,
                                      label.line_num = ln\<rparr>)]\<rparr>;
                           line2 = py_strip rest
                       in if line2 = [] then Inr st1 else parse_statement line2 ln st1))
            | None \<Rightarrow> parse_statement line ln st))"

text \<open>
  Pass 1, the loop over \<^verbatim>\<open>enumerate(source.splitlines(), 1)\<close>: an \<^verbatim>\<open>AssemblerError\<close> is
  re-raised as it is, any other exception is wrapped with the line and its number.
\<close>

fun parse_lines :: "(nat \<times> string) list \<Rightarrow> assembler \<Rightarrow> failure + assembler" where
  "parse_lines [] st = Inr st"
| "parse_lines ((ln, line) # rest) st =
     (case parse_line line ln st of
        Inl (AssemblerError m n l) \<Rightarrow> Inl (AssemblerError m n l)
      | Inl _ \<Rightarrow> Inl (AssemblerError Wrapped_exception ln line)
      | Inr st' \<Rightarrow> parse_lines rest st')"

definition enumerate1 :: "'a list \<Rightarrow> (nat \<times> 'a) list" where
  "enumerate1 xs = zip [1 ..< Suc (length xs)] xs"

definition pass1 :: "string \<Rightarrow> failure + assembler" where
  "pass1 source = parse_lines (enumerate1 (splitlines source)) initial_assembler"

text \<open>
  Pass 2, \<^verbatim>\<open>resolve_labels\<close>. \<open>resolve_instruction\<close> is the loop body; the loop stops at
  the first exception. An empty \<^verbatim>\<open>operand_label\<close> is falsy like \<^verbatim>\<open>None\<close>.
\<close>

definition is_relative_jump :: "opcode \<Rightarrow> bool" where
  "is_relative_jump opc = (opc = Opcode_JR \<or> opc = Opcode_JRZ \<or> opc = Opcode_JRNZ)"

definition resolve_instruction :: "(string \<rightharpoonup> label) \<Rightarrow> instruction \<Rightarrow> failure + instruction" where
  "resolve_instruction lbls instr =
     (case operand_label instr of
        None \<Rightarrow> Inr instr
      | Some l \<Rightarrow>
          if l = [] then Inr instr
          else (let label_name = py_upper l in
                case lbls label_name of
                  None \<Rightarrow> Inl (AssemblerError (Undefined_label label_name) (line_num instr) [])
                | Some lab \<Rightarrow>
                    if is_relative_jump (opcode instr) then
                      (let offset = label.address lab - (address instr + 2) in
                       if offset < - 128 \<or> offset > 127
                       then Inl (AssemblerError (Relative_jump_out_of_range label_name offset)
                                   (line_num instr) [])
                       else Inr (instr\<lparr>operand := Some (offset AND 0xFF)\<rparr>))
                    else Inr (instr\<lparr>operand := Some (label.address lab)\<rparr>)))"

fun resolve_instructions :: "(string \<rightharpoonup> label) \<Rightarrow> instruction list \<Rightarrow> failure + instruction list" where
  "resolve_instructions lbls [] = Inr []"
| "resolve_instructions lbls (instr # rest) =
     (case resolve_instruction lbls instr of
        Inl e \<Rightarrow> Inl e
      | Inr instr' \<Rightarrow>
          (case resolve_instructions lbls rest of
             Inl e \<Rightarrow> Inl e
           | Inr rest' \<Rightarrow> Inr (instr' # rest')))"

definition resolve_labels :: "assembler \<Rightarrow> failure + assembler" where
  "resolve_labels st =
     (case resolve_instructions (map_of (labels st)) (instructions st) of
        Inl e \<Rightarrow> Inl e
      | Inr instrs \<Rightarrow>
          (case entry_point st of
             Entry_int _ \<Rightarrow> Inr (st\<lparr>instructions := instrs\<rparr>)
           | Entry_str s \<Rightarrow>
               (case map_of (labels st) s of
                  None \<Rightarrow> Inl (AssemblerError (Undefined_entry_point_label s) 0 [])
                | Some lab \<Rightarrow>
                    Inr (st\<lparr>instructions := instrs,
                             entry_point := Entry_int (label.address lab)\<rparr>))))"

text \<open>
  Little-endian packing. \<open>le_bytes n v\<close> is the \<open>n\<close> low bytes of \<open>v\<close>, lowest first;
  \<^verbatim>\<open>struct.pack\<close> of one unsigned field raises \<^verbatim>\<open>struct.error\<close> outside the field's range.
\<close>

fun le_bytes :: "nat \<Rightarrow> int \<Rightarrow> byte list" where
  "le_bytes 0 v = []"
| "le_bytes (Suc n) v = word_of_int v # le_bytes n (v div 256)"

definition pack_unsigned :: "nat \<Rightarrow> int \<Rightarrow> failure + byte list" where
  "pack_unsigned n v = (if 0 \<le> v \<and> v < 2 ^ (8 * n) then Inr (le_bytes n v) else Inl Struct_error)"

text \<open>
  \<^verbatim>\<open>emit_bytecode\<close>: opcode byte, then the operand at the width of \<open>OPERAND_SIZE\<close>. The
  operand is masked before \<^verbatim>\<open>struct.pack\<close>, which therefore cannot raise here (lemma
  \<open>pack_unsigned_masked\<close> below), and the model writes the bytes directly.
\<close>

definition emit_instruction :: "instruction \<Rightarrow> byte list" where
  "emit_instruction instr =
     (let operand_size = OPERAND_SIZE (opcode instr);
          opnd = (case operand instr of Some v \<Rightarrow> v | None \<Rightarrow> 0)
      in word_of_int (opcode_value (opcode instr)) #
         (if operand_size = 1 then [word_of_int (opnd AND 0xFF)]
          else if operand_size = 2 then le_bytes 2 (opnd AND 0xFFFF)
          else if operand_size = 4 then le_bytes 4 (opnd AND 0xFFFFFFFF)
          else []))"

definition emit_bytecode :: "assembler \<Rightarrow> byte list" where
  "emit_bytecode st = concat (map emit_instruction (instructions st))"

text \<open>
  \<^verbatim>\<open>assemble(source)\<close>: the fields are reset, pass 1, pass 2, emission. The result is the
  bytecode together with the assembler object as the call leaves it.
\<close>

definition assemble :: "string \<Rightarrow> failure + (byte list \<times> assembler)" where
  "assemble source =
     (case pass1 source of
        Inl e \<Rightarrow> Inl e
      | Inr st1 \<Rightarrow>
          (case resolve_labels st1 of
             Inl e \<Rightarrow> Inl e
           | Inr st2 \<Rightarrow> Inr (emit_bytecode st2, st2)))"

subsection \<open>Disassembler\<close>

text \<open>
  \<^verbatim>\<open>disassemble(bytecode, base_addr)\<close> appends one text line per step; the model keeps each
  line as the values formatted into it, one constructor per format string:
  \<open>Dis_unknown addr opcode\<close> for \<^verbatim>\<open>???\<close>, \<open>Dis_truncated addr name\<close>, \<open>Dis_plain addr name\<close>,
  \<open>Dis_relative addr name signed_op target\<close>, \<open>Dis_byte addr name operand\<close>, and
  \<open>Dis_word\<close>/\<open>Dis_dword addr name operand\<close> for the 2- and 4-byte operands.
  \<open>disassemble_from\<close> is the \<^verbatim>\<open>while pc < len(bytecode)\<close> loop from a given \<open>pc\<close>.
\<close>

datatype dis_line =
    Dis_unknown int int
  | Dis_truncated int string
  | Dis_plain int string
  | Dis_relative int string int int
  | Dis_byte int string int
  | Dis_word int string int
  | Dis_dword int string int

fun le_value :: "byte list \<Rightarrow> int" where
  "le_value [] = 0"
| "le_value (b # bs) = uint b + 256 * le_value bs"

text \<open>\<^verbatim>\<open>struct.unpack_from\<close> of one unsigned little-endian field of \<open>n\<close> bytes at an offset.\<close>

definition unpack_from :: "nat \<Rightarrow> byte list \<Rightarrow> nat \<Rightarrow> int" where
  "unpack_from n buf off = le_value (take n (drop off buf))"

definition signed_byte :: "int \<Rightarrow> int" where
  "signed_byte v = (if v < 128 then v else v - 256)"

lemma get_operand_size_nonneg: "0 \<le> get_operand_size opc"
  by (simp add: get_operand_size_def)

function disassemble_from :: "byte list \<Rightarrow> int \<Rightarrow> nat \<Rightarrow> dis_line list" where
  "disassemble_from bytecode base_addr pc =
     (if pc < length bytecode then
        (let addr = base_addr + int pc;
             opc = uint (bytecode ! pc)
         in case opcode_names opc of
              None \<Rightarrow> Dis_unknown addr opc # disassemble_from bytecode base_addr (pc + 1)
            | Some nm \<Rightarrow>
                (let operand_size = get_operand_size opc;
                     instr_size = 1 + operand_size
                 in if int pc + operand_size \<ge> int (length bytecode)
                    then [Dis_truncated addr nm]
                    else
                      (if operand_size = 0 then Dis_plain addr nm
                       else if operand_size = 1 then
                         (let opnd = uint (bytecode ! (pc + 1)) in
                          if opc = opcode_value Opcode_JR \<or> opc = opcode_value Opcode_JRZ
                             \<or> opc = opcode_value Opcode_JRNZ
                          then Dis_relative addr nm (signed_byte opnd) (addr + 2 + signed_byte opnd)
                          else Dis_byte addr nm opnd)
                       else if operand_size = 2 then
                         Dis_word addr nm (unpack_from 2 bytecode (pc + 1))
                       else Dis_dword addr nm (unpack_from 4 bytecode (pc + 1)))
                      # disassemble_from bytecode base_addr (pc + nat instr_size)))
      else [])"
  by pat_completeness auto
termination
proof (relation "measure (\<lambda>(bytecode, base_addr, pc). length bytecode - pc)")
  show "wf (measure (\<lambda>(bytecode, base_addr, pc). length bytecode - pc))"
    by simp
next
  fix bytecode :: "byte list" and base_addr :: int and pc :: nat and addr opc
  assume "pc < length bytecode"
  then show "((bytecode, base_addr, pc + 1), (bytecode, base_addr, pc))
      \<in> measure (\<lambda>(bytecode, base_addr, pc). length bytecode - pc)"
    by simp
next
  fix bytecode :: "byte list" and base_addr :: int and pc :: nat
    and addr opc :: int and nm operand_size instr_size
  assume "pc < length bytecode" and "operand_size = get_operand_size opc"
    and "instr_size = 1 + operand_size"
  then show "((bytecode, base_addr, pc + nat instr_size), (bytecode, base_addr, pc))
      \<in> measure (\<lambda>(bytecode, base_addr, pc). length bytecode - pc)"
    using get_operand_size_nonneg [of opc] by simp
qed

declare disassemble_from.simps [simp del]

definition disassemble :: "byte list \<Rightarrow> int \<Rightarrow> dis_line list" where
  "disassemble bytecode base_addr = disassemble_from bytecode base_addr 0"

subsection \<open>Module encoder\<close>

definition ZPLC_MAGIC :: int where "ZPLC_MAGIC = 0x434C505A"
definition ZPLC_VERSION_MAJOR :: int where "ZPLC_VERSION_MAJOR = 1"
definition ZPLC_VERSION_MINOR :: int where "ZPLC_VERSION_MINOR = 0"

text \<open>
  \<^verbatim>\<open>struct.pack('<...', v1, v2, ...)\<close> with unsigned fields only: little-endian, no padding;
  each field is given as its width in bytes (\<^verbatim>\<open>I\<close> = 4, \<^verbatim>\<open>H\<close> = 2) with its value, and a
  value outside its field's range raises \<^verbatim>\<open>struct.error\<close>.
\<close>

fun struct_pack :: "(nat \<times> int) list \<Rightarrow> failure + byte list" where
  "struct_pack [] = Inr []"
| "struct_pack ((n, v) # fs) =
     (case pack_unsigned n v of
        Inl e \<Rightarrow> Inl e
      | Inr bs \<Rightarrow> (case struct_pack fs of Inl e \<Rightarrow> Inl e | Inr rest \<Rightarrow> Inr (bs @ rest)))"

text \<open>
  \<^verbatim>\<open>create_zplc_file(bytecode)\<close>. The two \<^verbatim>\<open>assert\<close>s on the lengths of the packed header
  and segment entry hold for every result of \<^verbatim>\<open>struct.pack\<close> and are not branches.
\<close>

definition create_zplc_file :: "assembler \<Rightarrow> byte list \<Rightarrow> failure + byte list" where
  "create_zplc_file st bytecode =
     (let code_size = int (length bytecode);
          segment_count = 1
      in case struct_pack
                [(4, ZPLC_MAGIC), (2, ZPLC_VERSION_MAJOR), (2, ZPLC_VERSION_MINOR),
                 (4, 0), (4, 0), (4, code_size), (4, 0),
                 (2, case entry_point st of Entry_int v \<Rightarrow> v | Entry_str _ \<Rightarrow> 0),
                 (2, segment_count), (4, 0)] of
           Inl e \<Rightarrow> Inl e
         | Inr header \<Rightarrow>
             (case struct_pack [(2, 0x01), (2, 0), (4, code_size)] of
                Inl e \<Rightarrow> Inl e
              | Inr segment_entry \<Rightarrow> Inr (header @ segment_entry @ bytecode)))"

text \<open>Reading a module back: the unsigned little-endian field of \<open>n\<close> bytes at offset \<open>off\<close>.\<close>

definition field :: "nat \<Rightarrow> nat \<Rightarrow> byte list \<Rightarrow> int" where
  "field off n m = le_value (take n (drop off m))"

section \<open>Transport client (tools/hil/zplc\_tester.py, tools/hil/language\_tester.py)\<close>

subsection \<open>Formatting\<close>

definition digit_char :: "nat \<Rightarrow> char" where
  "digit_char d = (if d < 10 then char_of (48 + d) else char_of (87 + d))"

fun str_nat :: "nat \<Rightarrow> string" where
  "str_nat n = (if n < 10 then [digit_char n] else str_nat (n div 10) @ [digit_char (n mod 10)])"

fun hex_nat :: "nat \<Rightarrow> string" where
  "hex_nat n = (if n < 16 then [digit_char n] else hex_nat (n div 16) @ [digit_char (n mod 16)])"

declare str_nat.simps [simp del] hex_nat.simps [simp del]

text \<open>\<^verbatim>\<open>str(i)\<close> (as an f-string formats an integer) and \<^verbatim>\<open>hex(i)\<close>.\<close>

definition py_str :: "int \<Rightarrow> string" where
  "py_str i = (if i < 0 then ''-'' @ str_nat (nat (- i)) else str_nat (nat i))"

definition py_hex :: "int \<Rightarrow> string" where
  "py_hex i = (if i < 0 then ''-0x'' @ hex_nat (nat (- i)) else ''0x'' @ hex_nat (nat i))"

text \<open>\<^verbatim>\<open>bytearray.hex()\<close> and \<^verbatim>\<open>binascii.hexlify\<close>: two lower-case digits per byte.\<close>

definition hex_of_bytes :: "byte list \<Rightarrow> string" where
  "hex_of_bytes bs = concat (map (\<lambda>b. [digit_char (unat b div 16), digit_char (unat b mod 16)]) bs)"

text \<open>\<^verbatim>\<open>bytearray(xs)\<close> of a list of integers: \<^verbatim>\<open>ValueError\<close> unless all are in 0..255.\<close>

definition to_bytearray :: "int list \<Rightarrow> failure + byte list" where
  "to_bytearray xs =
     (if list_all (\<lambda>x. 0 \<le> x \<and> x < 256) xs then Inr (map word_of_int xs) else Inl ValueError)"

text \<open>\<^verbatim>\<open>p in s\<close> on strings.\<close>

fun contains :: "string \<Rightarrow> string \<Rightarrow> bool" where
  "contains p [] = (p = [])"
| "contains p (c # cs) = (startswith (c # cs) p \<or> contains p cs)"

text \<open>\<^verbatim>\<open>xs[:n]\<close>: a negative bound counts from the end.\<close>

definition slice_to :: "'a list \<Rightarrow> int \<Rightarrow> 'a list" where
  "slice_to xs n = (if 0 \<le> n then take (nat n) xs else take (nat (int (length xs) + n)) xs)"

subsection \<open>The serial session\<close>

text \<open>
  What a call of \<^verbatim>\<open>send\<close> collects from the serial port depends on the device and on
  timing. The session carries it as data: \<open>incoming\<close> lists, in order, the response text of
  each coming call of \<^verbatim>\<open>send\<close> (a call that finds the list exhausted reads nothing until its
  timeout and returns the empty string); \<open>written\<close> is every line written to the port and
  \<open>printed\<close> every line printed, oldest first. Delays (\<^verbatim>\<open>time.sleep\<close>) and the draining of
  the input buffer before a command leave no trace in the session. A failure of the serial
  port itself (an exception of the \<^verbatim>\<open>serial\<close> library) is outside the model.
\<close>

record session =
  incoming :: "string list"
  written :: "string list"
  printed :: "string list"

definition prompt :: string where
  "prompt = ''zplc:~$''"

definition send :: "string \<Rightarrow> string \<Rightarrow> session \<Rightarrow> string \<times> session" where
  "send cmd wait_for s =
     (case incoming s of
        [] \<Rightarrow> ([], s\<lparr>written := written s @ [cmd @ [CHR 0x0D, CHR 0x0A]]\<rparr>)
      | r # rs \<Rightarrow> (r, s\<lparr>incoming := rs, written := written s @ [cmd @ [CHR 0x0D, CHR 0x0A]]\<rparr>))"

definition print :: "string \<Rightarrow> session \<Rightarrow> session" where
  "print text s = s\<lparr>printed := printed s @ [text]\<rparr>"

subsection \<open>Upload\<close>

text \<open>
  The \<^verbatim>\<open>for attempt in range(3)\<close> loop around \<^verbatim>\<open>zplc load\<close>, over the attempts still to
  make. The result is whether the loop left through \<^verbatim>\<open>break\<close> (otherwise its \<^verbatim>\<open>else\<close>
  branch runs), the last response and the session.
\<close>

fun load_attempts :: "nat list \<Rightarrow> nat \<Rightarrow> string \<Rightarrow> session \<Rightarrow> bool \<times> string \<times> session" where
  "load_attempts [] n resp s = (False, resp, s)"
| "load_attempts (attempt # rest) n resp s =
     (case send (''zplc load '' @ str_nat n) ''OK:'' s of
        (resp', s') \<Rightarrow>
          if contains ''OK:'' resp' then (True, resp', s')
          else load_attempts rest n resp'
                 (print (''WARN: zplc load retry '' @ str_nat (attempt + 1)) s'))"

text \<open>The retry loop of one chunk, and the loop over \<^verbatim>\<open>range(0, len(hex_data), chunk_size)\<close>.\<close>

fun chunk_attempts :: "nat list \<Rightarrow> nat \<Rightarrow> string \<Rightarrow> session \<Rightarrow> bool \<times> session" where
  "chunk_attempts [] i chunk s = (False, s)"
| "chunk_attempts (attempt # rest) i chunk s =
     (case send (''zplc data '' @ chunk) ''OK:'' s of
        (resp, s') \<Rightarrow>
          if contains ''OK:'' resp then (True, s')
          else chunk_attempts rest i chunk
                 (print (''WARN: Chunk '' @ str_nat i @ '' retry '' @ str_nat (attempt + 1)
                         @ ''. Resp: '' @ resp) s'))"

fun send_chunks :: "nat list \<Rightarrow> string \<Rightarrow> session \<Rightarrow> bool \<times> session" where
  "send_chunks [] hex_data s = (True, s)"
| "send_chunks (i # rest) hex_data s =
     (case chunk_attempts [0 ..< 3] i (take 32 (drop i hex_data)) s of
        (False, s') \<Rightarrow>
          (False, print (''ERROR: zplc data chunk '' @ str_nat i @ '' failed after retries'') s')
      | (True, s') \<Rightarrow> send_chunks rest hex_data s')"

definition range_step :: "nat \<Rightarrow> nat \<Rightarrow> nat list" where
  "range_step n step = map (\<lambda>k. k * step) [0 ..< (n + step - 1) div step]"

text \<open>
  \<^verbatim>\<open>upload_bytecode(bytecode)\<close>, \<open>bytecode\<close> a list of integers. Both \<^verbatim>\<open>else\<close> branches
  print and \<^verbatim>\<open>return\<close>; the only exception is the \<^verbatim>\<open>ValueError\<close> of \<^verbatim>\<open>bytearray\<close>.
\<close>

definition upload_bytecode :: "int list \<Rightarrow> session \<Rightarrow> failure + session" where
  "upload_bytecode bytecode s0 =
     (let s1 = snd (send ''zplc stop'' prompt s0);
          s2 = snd (send ''zplc reset'' prompt s1)
      in case load_attempts [0 ..< 3] (length bytecode) [] s2 of
           (False, resp, s3) \<Rightarrow> Inr (print (''ERROR: zplc load failed. Resp: '' @ resp) s3)
         | (True, resp, s3) \<Rightarrow>
             (case to_bytearray bytecode of
                Inl e \<Rightarrow> Inl e
              | Inr bs \<Rightarrow>
                  (let hex_data = hex_of_bytes bs in
                   case send_chunks (range_step (length hex_data) 32) hex_data s3 of
                     (False, s4) \<Rightarrow> Inr s4
                   | (True, s4) \<Rightarrow> Inr (snd (send [] prompt s4)))))"

subsection \<open>Peek and poke\<close>

definition is_hex :: "char \<Rightarrow> bool" where
  "is_hex c = (is_digit c \<or> (97 \<le> (of_char c :: nat) \<and> (of_char c :: nat) \<le> 102)
                \<or> (65 \<le> (of_char c :: nat) \<and> (of_char c :: nat) \<le> 70))"

text \<open>
  \<^verbatim>\<open>re.findall(r"([0-9A-Fa-f]{2})", data_part)\<close>: the non-overlapping pairs of hex digits,
  scanning from the left; and \<^verbatim>\<open>int(hv, 16)\<close> of such a pair.
\<close>

fun findall_hex2 :: "string \<Rightarrow> (char \<times> char) list" where
  "findall_hex2 (a # b # cs) =
     (if is_hex a \<and> is_hex b then (a, b) # findall_hex2 cs else findall_hex2 (b # cs))"
| "findall_hex2 cs = []"

definition hex_pair_value :: "char \<times> char \<Rightarrow> int" where
  "hex_pair_value hv =
     (case (digit_value (fst hv), digit_value (snd hv)) of
        (Some a, Some b) \<Rightarrow> int (16 * a + b)
      | _ \<Rightarrow> 0)"

text \<open>
  The body of the loop over the response lines: on a line with a colon, the bytes found in
  \<^verbatim>\<open>line.split(":")[1]\<close>, the text between the first colon and the next one (or the end).
\<close>

definition line_bytes :: "string \<Rightarrow> int list" where
  "line_bytes line =
     (if CHR '':'' \<in> set line then
        (case split_on CHR '':'' line of
           _ # data_part # _ \<Rightarrow> map hex_pair_value (findall_hex2 data_part)
         | _ \<Rightarrow> [])
      else [])"

definition peek :: "int \<Rightarrow> int \<Rightarrow> session \<Rightarrow> int list \<times> session" where
  "peek addr len s =
     (case send (''zplc dbg peek '' @ py_hex addr @ '' '' @ py_str len) prompt s of
        (resp, s') \<Rightarrow> (slice_to (concat (map line_bytes (splitlines resp))) len, s'))"

text \<open>
  \<^verbatim>\<open>LanguageTester.poke(address, value, size)\<close>: \<^verbatim>\<open>data\<close> stays empty unless \<^verbatim>\<open>size\<close> is
  1, 2 or 4; \<^verbatim>\<open>struct.pack\<close> raises on a value outside the field.
\<close>

definition poke :: "int \<Rightarrow> int \<Rightarrow> int \<Rightarrow> session \<Rightarrow> failure + session" where
  "poke addr val sz s =
     (case (if sz = 1 then Inr [word_of_int (val AND 0xFF)]
            else if sz = 2 then pack_unsigned 2 val
            else if sz = 4 then pack_unsigned 4 val
            else Inr []) of
        Inl e \<Rightarrow> Inl e
      | Inr data \<Rightarrow>
          Inr (snd (send (''zplc dbg poke '' @ py_hex addr @ '' '' @ hex_of_bytes data) prompt s)))"

text \<open>
  Two abbreviations for the statements about the session: \<open>reply s\<close> is the response the
  next call of \<^verbatim>\<open>send\<close> collects, and \<open>wire cmd\<close> the line that \<^verbatim>\<open>send(cmd)\<close> writes to the
  port.
\<close>

definition reply :: "session \<Rightarrow> string" where
  "reply s = (case incoming s of [] \<Rightarrow> [] | r # _ \<Rightarrow> r)"

definition wire :: "string \<Rightarrow> string" where
  "wire cmd = cmd @ [CHR 0x0D, CHR 0x0A]"


text \<open>
  The parse of a response line in the specification's words: every two-hex-digit token
  following a colon on the line, that is, in the text after the line's first colon. And the
  number of colons on a line.
\<close>

definition tokens_following_colon :: "string \<Rightarrow> int list" where
  "tokens_following_colon line =
     (if CHR '':'' \<in> set line
      then map hex_pair_value (findall_hex2 (tl (dropWhile (\<lambda>c. c \<noteq> CHR '':'') line)))
      else [])"

definition colon_count :: "string \<Rightarrow> nat" where
  "colon_count line = length (filter (\<lambda>c. c = CHR '':'') line)"


subsection \<open>Expected listing\<close>

text \<open>
  What the listing of an assembled program is expected to be, in the specification's words:
  one entry per instruction, in order, with the opcode's name and the operand at its declared
  width. \<open>operand_field\<close> is the operand as its \<open>OPERAND_SIZE\<close> bytes hold it (an absent
  operand is emitted as 0); a relative jump shows that byte as a signed value and its target.
  Addresses run from the base address by the instruction sizes.
\<close>

definition operand_field :: "instruction \<Rightarrow> int" where
  "operand_field instr =
     (case operand instr of Some v \<Rightarrow> v | None \<Rightarrow> 0) mod 2 ^ (8 * nat (OPERAND_SIZE (opcode instr)))"

definition expected_line :: "int \<Rightarrow> instruction \<Rightarrow> dis_line" where
  "expected_line addr instr =
     (let nm = opcode_name (opcode instr); w = OPERAND_SIZE (opcode instr); v = operand_field instr
      in if w = 0 then Dis_plain addr nm
         else if w = 1 then
           (if is_relative_jump (opcode instr)
            then Dis_relative addr nm (signed_byte v) (addr + 2 + signed_byte v)
            else Dis_byte addr nm v)
         else if w = 2 then Dis_word addr nm v
         else Dis_dword addr nm v)"

fun expected_listing :: "int \<Rightarrow> instruction list \<Rightarrow> dis_line list" where
  "expected_listing addr [] = []"
| "expected_listing addr (instr # rest) =
     expected_line addr instr # expected_listing (addr + 1 + OPERAND_SIZE (opcode instr)) rest"


text \<open>An instruction list in which no label reference is the empty string.\<close>

definition labels_nonempty :: "instruction list \<Rightarrow> bool" where
  "labels_nonempty instrs = (\<forall>instr \<in> set instrs. operand_label instr \<noteq> Some [])"


text \<open>
  The module layout of the specification: the ten header fields, the segment-table entry of
  the one code segment, the code.
\<close>

definition module_of :: "int \<Rightarrow> byte list \<Rightarrow> byte list" where
  "module_of ep bytecode =
     le_bytes 4 ZPLC_MAGIC @ le_bytes 2 ZPLC_VERSION_MAJOR @ le_bytes 2 ZPLC_VERSION_MINOR
     @ le_bytes 4 0 @ le_bytes 4 0 @ le_bytes 4 (int (length bytecode)) @ le_bytes 4 0
     @ le_bytes 2 ep @ le_bytes 2 1 @ le_bytes 4 0
     @ le_bytes 2 1 @ le_bytes 2 0 @ le_bytes 4 (int (length bytecode)) @ bytecode"


text \<open>
  The messages of the three errors that \<^verbatim>\<open>resolve_labels\<close> raises: undefined label,
  relative jump out of range, undefined entry point label.
\<close>

definition pass2_message :: "message \<Rightarrow> bool" where
  "pass2_message m =
     (case m of
        Undefined_label _ \<Rightarrow> True
      | Relative_jump_out_of_range _ _ \<Rightarrow> True
      | Undefined_entry_point_label _ \<Rightarrow> True
      | _ \<Rightarrow> False)"


section \<open>Properties of the ISA table and the disassembler\<close>

lemma unpack_from_append:
  "unpack_from n (pre @ bs) (length pre + k) = unpack_from n bs k"
  by (simp add: unpack_from_def)

lemma disassemble_from_append:
  "disassemble_from (pre @ bs) (b - int (length pre)) (length pre + pc) = disassemble_from bs b pc"
proof (induction bs b pc rule: disassemble_from.induct)
  case (1 bytecode base_addr pc)
  show ?case
  proof (cases "pc < length bytecode")
    case False
    then show ?thesis
      by (simp add: disassemble_from.simps [of "pre @ bytecode"] disassemble_from.simps [of bytecode])
  next
    case True
    note inb = True
    show ?thesis
    proof (cases "opcode_names (uint (bytecode ! pc))")
      case None
      have ih: "disassemble_from (pre @ bytecode) (base_addr - int (length pre)) (length pre + (pc + 1))
                = disassemble_from bytecode base_addr (pc + 1)"
        using "1.IH"(1) [OF inb refl refl None] .
      show ?thesis
        using inb None ih
        by (simp add: disassemble_from.simps [of "pre @ bytecode" _ "length pre + pc"]
            disassemble_from.simps [of bytecode base_addr pc] nth_append add.assoc)
    next
      case (Some nm)
      define w where "w = get_operand_size (uint (bytecode ! pc))"
      show ?thesis
      proof (cases "int pc + w \<ge> int (length bytecode)")
        case True
        then show ?thesis
          using inb Some
          by (simp add: disassemble_from.simps [of "pre @ bytecode" _ "length pre + pc"]
              disassemble_from.simps [of bytecode base_addr pc] nth_append w_def)
      next
        case False
        have ih: "disassemble_from (pre @ bytecode) (base_addr - int (length pre))
                    (length pre + (pc + nat (1 + w)))
                = disassemble_from bytecode base_addr (pc + nat (1 + w))"
          using "1.IH"(2) [OF inb refl refl Some refl refl] False
          by (simp add: w_def)
        have u2: "unpack_from 2 (pre @ bytecode) (Suc (length pre + pc)) = unpack_from 2 bytecode (Suc pc)"
          using unpack_from_append [of 2 pre bytecode "Suc pc"] by simp
        have u4: "unpack_from 4 (pre @ bytecode) (Suc (length pre + pc)) = unpack_from 4 bytecode (Suc pc)"
          using unpack_from_append [of 4 pre bytecode "Suc pc"] by simp
        show ?thesis
          using inb Some ih False u2 u4
          by (simp add: disassemble_from.simps [of "pre @ bytecode" _ "length pre + pc"]
              disassemble_from.simps [of bytecode base_addr pc] nth_append w_def [symmetric]
              add.assoc Let_def)
      qed
    qed
  qed
qed

lemma opcode_value_range: "0 \<le> opcode_value op \<and> opcode_value op < 256"
  by (cases op) simp_all

lemma uint_opcode_byte: "uint (word_of_int (opcode_value op) :: byte) = opcode_value op"
  using opcode_value_range [of op] by (simp add: uint_word_of_int take_bit_eq_mod)

lemma opcode_names_value: "opcode_names (opcode_value op) = Some (opcode_name op)"
  by (cases op) (simp_all add: opcode_names_def all_opcodes_def)

lemma relative_jump_value:
  "(opcode_value op = opcode_value Opcode_JR \<or> opcode_value op = opcode_value Opcode_JRZ
     \<or> opcode_value op = opcode_value Opcode_JRNZ) = is_relative_jump op"
  by (cases op) (simp_all add: is_relative_jump_def)

lemma OPERAND_SIZE_cases: "OPERAND_SIZE op \<in> {0, 1, 2, 4}"
  by (simp add: OPERAND_SIZE_def get_operand_size_def)

lemma exception_assigned:
  assumes "width_exception opc"
  shows "opcode_names opc \<noteq> None"
proof -
  from assms have "opc = 0x94 \<or> opc = 0xA0 \<or> opc = 0xA1 \<or> opc = 0xA2 \<or> opc = 0xA3
      \<or> opc = 0xA4 \<or> opc = 0xA5 \<or> opc = 0xA6"
    unfolding width_exception_def by (simp add: atLeastAtMost_iff) arith
  then show ?thesis
    by (elim disjE) (simp_all add: opcode_names_def all_opcodes_def)
qed

lemma disassemble_Cons_unknown:
  assumes "opcode_names (uint b) = None"
  shows "disassemble_from (b # rest) base 0 = Dis_unknown base (uint b) # disassemble_from rest (base + 1) 0"
proof -
  have "disassemble_from ([b] @ rest) ((base + 1) - int (length [b])) (length [b] + 0)
        = disassemble_from rest (base + 1) 0"
    by (rule disassemble_from_append)
  then have shift: "disassemble_from (b # rest) base (Suc 0) = disassemble_from rest (base + 1) 0"
    by simp
  show ?thesis
    using assms shift by (simp add: disassemble_from.simps [of "b # rest" base 0])
qed


text \<open>
  Claim C2. For every opcode byte in 0..255 the operand width is the width of its numeric
  range class (0, 1, 2, 4 bytes for 0x00-0x3F, 0x40-0x7F, 0x80-0xBF, 0xC0-0xFF), except for
  the exceptions, which have width 0 and all lie in the 2-byte range: \<^verbatim>\<open>RET\<close> (0x94) and the
  seven type conversions \<^verbatim>\<open>I2F\<close> .. \<^verbatim>\<open>ZEXT16\<close> (0xA0-0xA6).
\<close>

theorem operand_width_classes:
  assumes "0 \<le> opc" and "opc \<le> 255"
  shows "get_operand_size opc = (if width_exception opc then 0 else range_width opc)
       \<and> (width_exception opc \<longrightarrow> range_width opc = 2)
       \<and> (width_exception opc \<longleftrightarrow>
            opc = opcode_value Opcode_RET \<or>
            opc \<in> set (map opcode_value [Opcode_I2F, Opcode_F2I, Opcode_I2B, Opcode_EXT8,
                                         Opcode_EXT16, Opcode_ZEXT8, Opcode_ZEXT16]))"
proof (intro conjI)
  show "get_operand_size opc = (if width_exception opc then 0 else range_width opc)"
    using assms by (auto simp add: get_operand_size_def width_exception_def range_width_def)
  show "width_exception opc \<longrightarrow> range_width opc = 2"
    by (auto simp add: width_exception_def range_width_def)
  show "width_exception opc \<longleftrightarrow>
            opc = opcode_value Opcode_RET \<or>
            opc \<in> set (map opcode_value [Opcode_I2F, Opcode_F2I, Opcode_I2B, Opcode_EXT8,
                                         Opcode_EXT16, Opcode_ZEXT8, Opcode_ZEXT16])"
    unfolding width_exception_def by (simp add: atLeastAtMost_iff) arith
qed

theorem operand_width_classes_witness:
  "get_operand_size 0x94 = 0 \<and> range_width 0x94 = 2 \<and> get_operand_size 0xA3 = 0
   \<and> get_operand_size 0x41 = 1 \<and> get_operand_size 0xBF = 2 \<and> get_operand_size 0xFF = 4
   \<and> get_operand_size 0x3F = 0"
  using operand_width_classes [of "0x94"] operand_width_classes [of "0xA3"]
    operand_width_classes [of "0x41"] operand_width_classes [of "0xBF"]
    operand_width_classes [of "0xFF"] operand_width_classes [of "0x3F"]
  by (simp add: width_exception_def range_width_def)

text \<open>
  Claim C3, as stated, fails: \<^verbatim>\<open>get_operand_size\<close> has no "unknown" outcome. The byte 0x41
  is no member of \<^verbatim>\<open>Opcode\<close>, and its width is the width of its range, 1.
\<close>

theorem width_unknown_counterexample:
  "opcode_names 0x41 = None \<and> get_operand_size 0x41 = 1 \<and> range_width 0x41 = 1"
  by (simp add: opcode_names_def all_opcodes_def get_operand_size_def range_width_def)

text \<open>
  Claim C3, amended. \<^verbatim>\<open>get_operand_size\<close> is total, and on a byte that is no assigned opcode
  it returns the width of the byte's range. The distinct outcome for such a byte is produced
  by the disassembler, which looks the byte up in the opcode table before it asks for the
  width: it reports the single byte as unknown and goes on with the next byte.
\<close>

theorem width_total_unknown_in_disassembler:
  assumes "opcode_names (uint b) = None"
  shows "get_operand_size (uint b) = range_width (uint b)
       \<and> disassemble (b # rest) base = Dis_unknown base (uint b) # disassemble rest (base + 1)"
proof
  have "\<not> width_exception (uint b)"
    using assms exception_assigned by blast
  moreover have "0 \<le> uint b" "uint b \<le> 255"
    using uint_bounded [of b] by simp_all
  ultimately show "get_operand_size (uint b) = range_width (uint b)"
    by (auto simp add: get_operand_size_def width_exception_def range_width_def)
  show "disassemble (b # rest) base = Dis_unknown base (uint b) # disassemble rest (base + 1)"
    using disassemble_Cons_unknown [OF assms] by (simp add: disassemble_def)
qed

theorem width_total_unknown_in_disassembler_witness:
  "opcode_names (uint (0x41 :: byte)) = None \<and> get_operand_size (uint (0x41 :: byte)) = 1
   \<and> disassemble [0x41, 0x01] 0 = [Dis_unknown 0 0x41, Dis_plain 1 ''HALT'']"
proof -
  have n: "opcode_names (uint (0x41 :: byte)) = None"
    by (simp add: opcode_names_def all_opcodes_def)
  have h: "disassemble [0x01 :: byte] 1 = [Dis_plain 1 ''HALT'']"
    by (simp add: disassemble_def disassemble_from.simps [of _ _ 0] disassemble_from.simps [of _ _ "Suc 0"]
        opcode_names_def all_opcodes_def get_operand_size_def)
  show ?thesis
    using width_total_unknown_in_disassembler [OF n, of "[0x01]" 0] n h
    by (simp add: range_width_def)
qed

section \<open>Disassembling assembled code\<close>

lemma and_255: "(v :: int) AND 0xFF = v mod 256"
proof -
  have "v AND mask 8 = take_bit 8 v"
    by (simp add: take_bit_eq_mask)
  moreover have "(mask 8 :: int) = 0xFF"
    by (simp add: mask_eq_exp_minus_1)
  ultimately show ?thesis
    by (simp add: take_bit_eq_mod)
qed

lemma and_65535: "(v :: int) AND 0xFFFF = v mod 65536"
proof -
  have "v AND mask 16 = take_bit 16 v"
    by (simp add: take_bit_eq_mask)
  moreover have "(mask 16 :: int) = 0xFFFF"
    by (simp add: mask_eq_exp_minus_1)
  ultimately show ?thesis
    by (simp add: take_bit_eq_mod)
qed

lemma and_4294967295: "(v :: int) AND 0xFFFFFFFF = v mod 4294967296"
proof -
  have "v AND mask 32 = take_bit 32 v"
    by (simp add: take_bit_eq_mask)
  moreover have "(mask 32 :: int) = 0xFFFFFFFF"
    by (simp add: mask_eq_exp_minus_1)
  ultimately show ?thesis
    by (simp add: take_bit_eq_mod)
qed

lemma opcode_value_mod: "opcode_value op mod 256 = opcode_value op"
  using opcode_value_range [of op] by simp

lemma uint_byte_of_int: "uint (word_of_int v :: byte) = v mod 256"
  by (simp add: uint_word_of_int take_bit_eq_mod)

lemma le_value_le_bytes: "le_value (le_bytes n v) = v mod 2 ^ (8 * n)"
proof (induction n arbitrary: v)
  case 0
  then show ?case by simp
next
  case (Suc n)
  have "v mod (256 * 2 ^ (8 * n)) = 256 * (v div 256 mod 2 ^ (8 * n)) + v mod 256"
    using mod_mult2_eq' [of v 256 "2 ^ (8 * n)"] by simp
  moreover have "(2::int) ^ (8 * Suc n) = 256 * 2 ^ (8 * n)"
    by (simp add: power_add)
  ultimately show ?case
    using Suc.IH [of "v div 256"] by (simp add: uint_byte_of_int)
qed

lemma length_le_bytes: "length (le_bytes n v) = n"
  by (induction n arbitrary: v) simp_all

lemma disassemble_from_skip:
  "disassemble_from (pre @ rest) base (length pre) = disassemble_from rest (base + int (length pre)) 0"
  using disassemble_from_append [of pre rest "base + int (length pre)" 0] by simp

lemma length_emit_instruction:
  "int (length (emit_instruction instr)) = 1 + OPERAND_SIZE (opcode instr)"
  using OPERAND_SIZE_cases [of "opcode instr"]
  by (auto simp add: emit_instruction_def Let_def length_le_bytes)

lemma disassemble_emit_instruction:
  "disassemble_from (emit_instruction instr @ rest) base 0
   = expected_line base instr # disassemble_from rest (base + 1 + OPERAND_SIZE (opcode instr)) 0"
proof -
  define w where "w = OPERAND_SIZE (opcode instr)"
  define v where "v = (case operand instr of Some v \<Rightarrow> v | None \<Rightarrow> 0)"
  have gw: "get_operand_size (opcode_value (opcode instr)) = w"
    by (simp add: w_def OPERAND_SIZE_def)
  have skip: "disassemble_from (emit_instruction instr @ rest) base (nat (1 + w))
              = disassemble_from rest (base + 1 + w) 0"
  proof -
    have "nat (1 + w) = length (emit_instruction instr)"
      using length_emit_instruction [of instr] by (simp add: w_def)
    then show ?thesis
      using disassemble_from_skip [of "emit_instruction instr" rest base]
        length_emit_instruction [of instr] by (simp add: w_def add.assoc)
  qed
  have wc: "w = 0 \<or> w = 1 \<or> w = 2 \<or> w = 4"
    using OPERAND_SIZE_cases [of "opcode instr"] by (simp add: w_def)
  have hd_byte: "\<And>xs. uint ((word_of_int (opcode_value (opcode instr)) # xs) ! 0 :: byte)
      = opcode_value (opcode instr)"
    by (simp add: uint_opcode_byte)
  from wc show ?thesis
  proof (elim disjE)
    assume w0: "w = 0"
    have e: "emit_instruction instr = [word_of_int (opcode_value (opcode instr))]"
      using w0 by (simp add: emit_instruction_def w_def [symmetric])
    show ?thesis
      using skip w0 gw
      by (simp add: e disassemble_from.simps [of _ base 0] uint_opcode_byte opcode_value_mod opcode_names_value Let_def
          expected_line_def w_def [symmetric])
  next
    assume w1: "w = 1"
    have e: "emit_instruction instr
             = [word_of_int (opcode_value (opcode instr)), word_of_int (v AND 0xFF)]"
      using w1 by (simp add: emit_instruction_def w_def [symmetric] v_def)
    have f: "operand_field instr = v mod 256"
      using w1 by (simp add: operand_field_def w_def [symmetric] v_def)
    show ?thesis
      using skip w1 gw relative_jump_value [of "opcode instr"]
      by (simp add: e disassemble_from.simps [of _ base 0] uint_opcode_byte opcode_value_mod opcode_names_value Let_def
          expected_line_def w_def [symmetric] f uint_byte_of_int and_255 eval_nat_numeral)
  next
    assume w2: "w = 2"
    have e: "emit_instruction instr
             = word_of_int (opcode_value (opcode instr)) # le_bytes 2 (v AND 0xFFFF)"
      using w2 by (simp add: emit_instruction_def w_def [symmetric] v_def)
    have f: "operand_field instr = v mod 65536"
      using w2 by (simp add: operand_field_def w_def [symmetric] v_def)
    have u: "unpack_from 2 (word_of_int (opcode_value (opcode instr)) # le_bytes 2 (v AND 0xFFFF) @ rest) (Suc 0)
             = v mod 65536"
      using le_value_le_bytes [of 2 "v AND 0xFFFF"]
      by (simp add: unpack_from_def length_le_bytes and_65535)
    show ?thesis
      using skip w2 gw u
      by (simp add: e disassemble_from.simps [of _ base 0] uint_opcode_byte opcode_value_mod opcode_names_value Let_def
          expected_line_def w_def [symmetric] f length_le_bytes eval_nat_numeral)
  next
    assume w4: "w = 4"
    have e: "emit_instruction instr
             = word_of_int (opcode_value (opcode instr)) # le_bytes 4 (v AND 0xFFFFFFFF)"
      using w4 by (simp add: emit_instruction_def w_def [symmetric] v_def)
    have f: "operand_field instr = v mod 4294967296"
      using w4 by (simp add: operand_field_def w_def [symmetric] v_def)
    have u: "unpack_from 4 (word_of_int (opcode_value (opcode instr)) # le_bytes 4 (v AND 0xFFFFFFFF) @ rest) (Suc 0)
             = v mod 4294967296"
      using le_value_le_bytes [of 4 "v AND 0xFFFFFFFF"]
      by (simp add: unpack_from_def length_le_bytes and_4294967295)
    show ?thesis
      using skip w4 gw u
      by (simp add: e disassemble_from.simps [of _ base 0] uint_opcode_byte opcode_value_mod opcode_names_value Let_def
          expected_line_def w_def [symmetric] f length_le_bytes eval_nat_numeral)
  qed
qed

lemma disassemble_from_Nil: "disassemble_from [] base 0 = []"
  by (simp add: disassemble_from.simps [of "[]"])

lemma disassemble_emitted:
  "disassemble_from (concat (map emit_instruction instrs)) base 0 = expected_listing base instrs"
proof (induction instrs arbitrary: base)
  case Nil
  then show ?case by (simp add: disassemble_from_Nil)
next
  case (Cons instr instrs)
  then show ?case by (simp add: disassemble_emit_instruction)
qed

lemma length_expected_listing: "length (expected_listing base instrs) = length instrs"
  by (induction instrs arbitrary: base) simp_all

text \<open>
  Claim C1. If a source text assembles (it parses without error and every label reference
  resolves), then disassembling the emitted byte sequence gives exactly one entry per
  instruction of the assembled instruction list, in order, each with the opcode name and the
  operand value at its declared width of that instruction.
\<close>

theorem disassemble_assemble_roundtrip:
  assumes "assemble source = Inr (bytecode, st)"
  shows "disassemble bytecode base = expected_listing base (instructions st)
       \<and> length (disassemble bytecode base) = length (instructions st)"
proof -
  from assms have "bytecode = emit_bytecode st"
    by (auto simp add: assemble_def split: sum.splits)
  then show ?thesis
    by (simp add: disassemble_def emit_bytecode_def disassemble_emitted length_expected_listing)
qed

theorem disassemble_assemble_roundtrip_witness:
  "assemble ''loop: PUSH8 10\<newline>JR loop\<newline>HALT'' =
     Inr ([0x40, 10, 0x50, 0xFC, 0x01],
          \<lparr>instructions =
             [\<lparr>opcode = Opcode_PUSH8, operand = Some 10, operand_label = None,
               line_num = 1, address = 0\<rparr>,
              \<lparr>opcode = Opcode_JR, operand = Some 252, operand_label = Some ''loop'',
               line_num = 2, address = 2\<rparr>,
              \<lparr>opcode = Opcode_HALT, operand = None, operand_label = None,
               line_num = 3, address = 4\<rparr>],
           labels = [(''LOOP'', \<lparr>label.name = ''LOOP'', label.address = 0, label.line_num = 1\<rparr>)],
           entry_point = Entry_int 0, current_address = 5\<rparr>)
   \<and> disassemble [0x40, 10, 0x50, 0xFC, 0x01] 0
       = [Dis_byte 0 ''PUSH8'' 10, Dis_relative 2 ''JR'' (- 4) 0, Dis_plain 4 ''HALT'']"
proof -
  have a: "assemble ''loop: PUSH8 10\<newline>JR loop\<newline>HALT'' =
     Inr ([0x40, 10, 0x50, 0xFC, 0x01],
          \<lparr>instructions =
             [\<lparr>opcode = Opcode_PUSH8, operand = Some 10, operand_label = None,
               line_num = 1, address = 0\<rparr>,
              \<lparr>opcode = Opcode_JR, operand = Some 252, operand_label = Some ''loop'',
               line_num = 2, address = 2\<rparr>,
              \<lparr>opcode = Opcode_HALT, operand = None, operand_label = None,
               line_num = 3, address = 4\<rparr>],
           labels = [(''LOOP'', \<lparr>label.name = ''LOOP'', label.address = 0, label.line_num = 1\<rparr>)],
           entry_point = Entry_int 0, current_address = 5\<rparr>)"
    by code_simp
  have l: "expected_listing 0
             [\<lparr>opcode = Opcode_PUSH8, operand = Some 10, operand_label = None,
               line_num = 1, address = 0\<rparr>,
              \<lparr>opcode = Opcode_JR, operand = Some 252, operand_label = Some ''loop'',
               line_num = 2, address = 2\<rparr>,
              \<lparr>opcode = Opcode_HALT, operand = None, operand_label = None,
               line_num = 3, address = 4\<rparr>]
           = [Dis_byte 0 ''PUSH8'' 10, Dis_relative 2 ''JR'' (- 4) 0, Dis_plain 4 ''HALT'']"
    by code_simp
  from disassemble_assemble_roundtrip [OF a, of 0] l
  have "disassemble [0x40, 10, 0x50, 0xFC, 0x01] 0
       = [Dis_byte 0 ''PUSH8'' 10, Dis_relative 2 ''JR'' (- 4) 0, Dis_plain 4 ''HALT'']"
    by simp
  with a show ?thesis by (rule conjI)
qed

section \<open>The two passes\<close>

lemma define_bytes_eq:
  "define_bytes vs st =
     (if \<forall>v \<in> set vs. parse_number (py_strip v) \<noteq> None
      then Inr (st\<lparr>current_address := current_address st + int (length vs)\<rparr>)
      else Inl ValueError)"
proof (induction vs arbitrary: st)
  case Nil
  then show ?case by simp
next
  case (Cons v vs)
  show ?case
  proof (cases "parse_number (py_strip v)")
    case None
    then show ?thesis by simp
  next
    case (Some x)
    then show ?thesis
      using Cons.IH [of "st\<lparr>current_address := current_address st + 1\<rparr>"]
      by (simp add: add.assoc)
  qed
qed

lemma handle_directive_keeps:
  assumes "handle_directive d operand_text ln st = Inr st'"
  shows "instructions st' = instructions st \<and> labels st' = labels st"
  using assms
  by (auto simp add: handle_directive_def define_bytes_eq Let_def split: if_splits option.splits)

lemma is_identifier_nonempty: "is_identifier s \<Longrightarrow> s \<noteq> []"
  by (auto simp add: is_identifier_def)

lemma parse_operand_label:
  assumes "parse_operand s ln = Inr (v, Some l)"
  shows "l \<noteq> []"
  using assms
  by (auto simp add: parse_operand_def Let_def is_identifier_nonempty split: if_splits option.splits)

lemma parse_statement_nonempty:
  assumes "parse_statement line ln st = Inr st'" and "labels_nonempty (instructions st)"
  shows "labels_nonempty (instructions st')"
proof (cases "startswith (py_upper (fst (split_first line))) ''.''")
  case True
  then show ?thesis
    using assms handle_directive_keeps by (auto simp add: parse_statement_def Let_def)
next
  case False
  have no: "\<And>x a. parse_operand x ln \<noteq> Inr (a, Some [])"
    using parse_operand_label by blast
  from False show ?thesis
    using assms
    by (auto simp add: parse_statement_def Let_def labels_nonempty_def no
        split: option.splits if_splits sum.splits)
qed

lemma parse_line_nonempty:
  assumes "parse_line line ln st = Inr st'" and "labels_nonempty (instructions st)"
  shows "labels_nonempty (instructions st')"
proof -
  have step: "\<And>l s. parse_statement l ln s = Inr st' \<Longrightarrow> instructions s = instructions st
      \<Longrightarrow> labels_nonempty (instructions st')"
    using parse_statement_nonempty assms(2) by metis
  show ?thesis
    using assms
    by (auto simp add: parse_line_def Let_def split: if_splits option.splits prod.splits
        intro: step)
qed

lemma parse_lines_nonempty:
  assumes "parse_lines ls st = Inr st'" and "labels_nonempty (instructions st)"
  shows "labels_nonempty (instructions st')"
  using assms
proof (induction ls arbitrary: st)
  case Nil
  then show ?case by simp
next
  case (Cons a ls)
  obtain ln line where a: "a = (ln, line)" by (cases a)
  from Cons.prems(1) obtain s where s: "parse_line line ln st = Inr s" and r: "parse_lines ls s = Inr st'"
    by (auto simp add: a split: sum.splits failure.splits)
  from Cons.IH [OF r parse_line_nonempty [OF s Cons.prems(2)]] show ?case .
qed

lemma pass1_nonempty:
  assumes "pass1 source = Inr st"
  shows "labels_nonempty (instructions st)"
  using parse_lines_nonempty [of _ initial_assembler st] assms
  by (simp add: pass1_def labels_nonempty_def initial_assembler_def)

lemma resolve_instructions_nth:
  assumes "resolve_instructions lbls instrs = Inr instrs'"
  shows "length instrs' = length instrs
       \<and> (\<forall>i < length instrs. resolve_instruction lbls (instrs ! i) = Inr (instrs' ! i))"
  using assms
proof (induction instrs arbitrary: instrs')
  case Nil
  then show ?case by simp
next
  case (Cons instr rest)
  from Cons.prems obtain instr' rest' where
    h: "resolve_instruction lbls instr = Inr instr'" and
    r: "resolve_instructions lbls rest = Inr rest'" and
    e: "instrs' = instr' # rest'"
    by (auto split: sum.splits)
  from Cons.IH [OF r] h e show ?case
    by (auto simp add: nth_Cons split: nat.splits)
qed

lemma resolve_labels_instructions:
  assumes "resolve_labels st = Inr st'"
  shows "resolve_instructions (map_of (labels st)) (instructions st) = Inr (instructions st')"
  using assms
  by (auto simp add: resolve_labels_def split: sum.splits entry.splits option.splits)

lemma signed_byte_offset:
  assumes "- 128 \<le> off" and "off \<le> 127"
  shows "signed_byte (off AND 0xFF) = off"
proof (cases "0 \<le> off")
  case True
  with assms have "off mod 256 = off" by simp
  with True assms show ?thesis by (simp add: and_255 signed_byte_def)
next
  case False
  have "(off + 256) mod 256 = off + 256"
    using False assms by (intro mod_pos_pos_trivial) simp_all
  then have "off mod 256 = off + 256"
    by simp
  with False assms show ?thesis by (simp add: and_255 signed_byte_def)
qed

text \<open>
  Claim C4. Take an instruction of the parsed program that is a relative branch
  (\<^verbatim>\<open>JR\<close>, \<^verbatim>\<open>JRZ\<close>, \<^verbatim>\<open>JRNZ\<close>) with a label operand, the label being defined. If the offset
  \<open>target_address - (instruction_address + 2)\<close> lies outside -128..127, assembly fails with
  an error; and whenever assembly succeeds, the offset is within -128..127 and the resolved
  operand is the offset as a byte, whose signed reading is the offset again.
\<close>

theorem relative_branch_resolution:
  assumes "pass1 source = Inr st"
    and "i < length (instructions st)"
    and "is_relative_jump (opcode (instructions st ! i))"
    and "operand_label (instructions st ! i) = Some l"
    and "map_of (labels st) (py_upper l) = Some lab"
  shows "(label.address lab - (address (instructions st ! i) + 2) < - 128
          \<or> 127 < label.address lab - (address (instructions st ! i) + 2)
          \<longrightarrow> (\<exists>e. assemble source = Inl e))
       \<and> (\<forall>bytecode st'. assemble source = Inr (bytecode, st') \<longrightarrow>
            - 128 \<le> label.address lab - (address (instructions st ! i) + 2)
            \<and> label.address lab - (address (instructions st ! i) + 2) \<le> 127
            \<and> operand (instructions st' ! i)
                = Some ((label.address lab - (address (instructions st ! i) + 2)) AND 0xFF)
            \<and> signed_byte ((label.address lab - (address (instructions st ! i) + 2)) AND 0xFF)
                = label.address lab - (address (instructions st ! i) + 2))"
proof -
  define instr where "instr = instructions st ! i"
  define off where "off = label.address lab - (address instr + 2)"
  have ne: "l \<noteq> []"
    using pass1_nonempty [OF assms(1)] assms(2,4)
    by (auto simp add: labels_nonempty_def)
  have res: "resolve_instruction (map_of (labels st)) instr =
      (if off < - 128 \<or> off > 127
       then Inl (AssemblerError (Relative_jump_out_of_range (py_upper l) off) (line_num instr) [])
       else Inr (instr\<lparr>operand := Some (off AND 0xFF)\<rparr>))"
    using assms(3,4,5) ne
    by (simp add: resolve_instruction_def instr_def [symmetric] off_def Let_def)
  have ok: "- 128 \<le> off \<and> off \<le> 127 \<and> operand (instructions st' ! i) = Some (off AND 0xFF)
            \<and> signed_byte (off AND 0xFF) = off"
    if a: "assemble source = Inr (bytecode, st')" for bytecode st'
  proof -
    from a assms(1) have "resolve_labels st = Inr st'"
      by (auto simp add: assemble_def split: sum.splits)
    from resolve_instructions_nth [OF resolve_labels_instructions [OF this]] assms(2)
    have r: "resolve_instruction (map_of (labels st)) instr = Inr (instructions st' ! i)"
      by (simp add: instr_def)
    with res have rng: "- 128 \<le> off \<and> off \<le> 127"
      by (auto split: if_splits)
    with r res have "instructions st' ! i = instr\<lparr>operand := Some (off AND 0xFF)\<rparr>"
      by (auto split: if_splits)
    then show ?thesis
      using rng signed_byte_offset [of off] by simp
  qed
  have bad: "\<exists>e. assemble source = Inl e" if o: "off < - 128 \<or> 127 < off"
  proof (cases "assemble source")
    case (Inl e)
    then show ?thesis by blast
  next
    case (Inr p)
    then obtain bytecode st' where "assemble source = Inr (bytecode, st')"
      by (cases p) simp
    from ok [OF this] o show ?thesis by simp
  qed
  from ok bad show ?thesis
    unfolding off_def instr_def by blast
qed

theorem relative_branch_resolution_witness:
  "pass1 ''loop: PUSH8 10\<newline>JR loop\<newline>HALT'' =
     Inr \<lparr>instructions =
             [\<lparr>opcode = Opcode_PUSH8, operand = Some 10, operand_label = None,
               line_num = 1, address = 0\<rparr>,
              \<lparr>opcode = Opcode_JR, operand = None, operand_label = Some ''loop'',
               line_num = 2, address = 2\<rparr>,
              \<lparr>opcode = Opcode_HALT, operand = None, operand_label = None,
               line_num = 3, address = 4\<rparr>],
           labels = [(''LOOP'', \<lparr>label.name = ''LOOP'', label.address = 0, label.line_num = 1\<rparr>)],
           entry_point = Entry_int 0, current_address = 5\<rparr>
   \<and> map_sum id fst (assemble ''loop: PUSH8 10\<newline>JR loop\<newline>HALT'')
       = Inr [0x40, 10, 0x50, 0xFC, 0x01]
   \<and> (- 128 :: int) \<le> 0 - (2 + 2) \<and> (0 :: int) - (2 + 2) \<le> 127
   \<and> signed_byte ((0 - (2 + 2)) AND 0xFF) = 0 - (2 + 2)"
proof -
  let ?st = "\<lparr>instructions =
             [\<lparr>opcode = Opcode_PUSH8, operand = Some 10, operand_label = None,
               line_num = 1, address = 0\<rparr>,
              \<lparr>opcode = Opcode_JR, operand = None, operand_label = Some ''loop'',
               line_num = 2, address = 2\<rparr>,
              \<lparr>opcode = Opcode_HALT, operand = None, operand_label = None,
               line_num = 3, address = 4\<rparr>],
           labels = [(''LOOP'', \<lparr>label.name = ''LOOP'', label.address = 0, label.line_num = 1\<rparr>)],
           entry_point = Entry_int 0, current_address = 5\<rparr>"
  have p: "pass1 ''loop: PUSH8 10\<newline>JR loop\<newline>HALT'' = Inr ?st"
    by code_simp
  have u: "py_upper ''loop'' = ''LOOP''"
    by code_simp
  have b: "map_sum id fst (assemble ''loop: PUSH8 10\<newline>JR loop\<newline>HALT'')
       = Inr [0x40, 10, 0x50, 0xFC, 0x01]"
    by code_simp
  then obtain st' where a: "assemble ''loop: PUSH8 10\<newline>JR loop\<newline>HALT''
       = Inr ([0x40, 10, 0x50, 0xFC, 0x01], st')"
    by (cases "assemble ''loop: PUSH8 10\<newline>JR loop\<newline>HALT''") auto
  have "(- 128 :: int) \<le> 0 - (2 + 2) \<and> (0 :: int) - (2 + 2) \<le> 127
      \<and> signed_byte ((0 - (2 + 2)) AND 0xFF) = 0 - (2 + 2)"
    using relative_branch_resolution [OF p, of 1 "''loop''"
        "\<lparr>label.name = ''LOOP'', label.address = 0, label.line_num = 1\<rparr>"] a
    by (simp add: is_relative_jump_def u)
  with p b show ?thesis by blast
qed

text \<open>
  Claim C9. A \<^verbatim>\<open>.DB\<close>/\<^verbatim>\<open>.BYTE\<close> directive with n comma-separated values that is handled
  without error moves the address cursor on by exactly n (so every later label and
  instruction takes an address n higher) and changes nothing else: the instruction list, and
  with it the emitted byte sequence and its length, are as before; none of the n values is
  emitted.
\<close>

theorem define_bytes_advances_cursor_only:
  assumes "directive = ''.DB'' \<or> directive = ''.BYTE''"
    and "handle_directive directive operand_text ln st = Inr st'"
  shows "current_address st'
           = current_address st + int (length (split_on CHR '','' operand_text))
       \<and> instructions st' = instructions st
       \<and> emit_bytecode st' = emit_bytecode st
       \<and> length (emit_bytecode st') = length (emit_bytecode st)
       \<and> labels st' = labels st \<and> entry_point st' = entry_point st"
proof -
  from assms have "define_bytes (split_on CHR '','' operand_text) st = Inr st'"
    by (auto simp add: handle_directive_def)
  then have "st' = st\<lparr>current_address :=
      current_address st + int (length (split_on CHR '','' operand_text))\<rparr>"
    by (simp add: define_bytes_eq split: if_splits)
  then show ?thesis
    by (simp add: emit_bytecode_def)
qed

theorem define_bytes_advances_cursor_only_witness:
  "handle_directive ''.DB'' ''1, 0x02,3'' 1 initial_assembler
     = Inr (initial_assembler\<lparr>current_address := 3\<rparr>)
   \<and> length (split_on CHR '','' ''1, 0x02,3'') = 3
   \<and> emit_bytecode (initial_assembler\<lparr>current_address := 3\<rparr>) = emit_bytecode initial_assembler
   \<and> map_sum id fst (assemble ''.DB 1, 0x02,3\<newline>L: JMP L'') = Inr [0x90, 3, 0]"
proof -
  have h: "handle_directive ''.DB'' ''1, 0x02,3'' 1 initial_assembler
     = Inr (initial_assembler\<lparr>current_address := 3\<rparr>)"
    by code_simp
  have n: "length (split_on CHR '','' ''1, 0x02,3'') = 3"
    by code_simp
  have a: "map_sum id fst (assemble ''.DB 1, 0x02,3\<newline>L: JMP L'') = Inr [0x90, 3, 0]"
    by code_simp
  from define_bytes_advances_cursor_only [OF _ h]
  have "emit_bytecode (initial_assembler\<lparr>current_address := 3\<rparr>) = emit_bytecode initial_assembler"
    by simp
  with h n a show ?thesis by blast
qed

section \<open>The module encoder\<close>

lemma pack_unsigned_masked:
  "pack_unsigned 1 (v AND 0xFF) = Inr (le_bytes 1 (v AND 0xFF))"
  "pack_unsigned 2 (v AND 0xFFFF) = Inr (le_bytes 2 (v AND 0xFFFF))"
  "pack_unsigned 4 (v AND 0xFFFFFFFF) = Inr (le_bytes 4 (v AND 0xFFFFFFFF))"
  by (simp_all add: pack_unsigned_def and_255 and_65535 and_4294967295)

lemma field_at:
  assumes "length pre = off" and "0 \<le> v" and "v < 2 ^ (8 * n)"
  shows "field off n (pre @ le_bytes n v @ post) = v"
  using assms le_value_le_bytes [of n v]
  by (simp add: field_def length_le_bytes)

lemma create_zplc_file_eq:
  "create_zplc_file st bytecode =
     (let ep = (case entry_point st of Entry_int v \<Rightarrow> v | Entry_str _ \<Rightarrow> 0) in
      if 0 \<le> ep \<and> ep < 65536 \<and> length bytecode < 2 ^ 32
      then Inr (module_of ep bytecode) else Inl Struct_error)"
  by (simp add: create_zplc_file_def pack_unsigned_def module_of_def Let_def
      ZPLC_MAGIC_def ZPLC_VERSION_MAJOR_def ZPLC_VERSION_MINOR_def)

lemma length_module_of: "length (module_of ep bytecode) = 40 + length bytecode"
  by (simp add: module_of_def length_le_bytes)

lemma field_le_bytes_skip:
  "k \<le> off \<Longrightarrow> field off n (le_bytes k v @ rest) = field (off - k) n rest"
  by (simp add: field_def length_le_bytes)

lemma field_le_bytes_here:
  "0 \<le> v \<Longrightarrow> v < 2 ^ (8 * n) \<Longrightarrow> field 0 n (le_bytes n v @ rest) = v"
  by (simp add: field_def length_le_bytes le_value_le_bytes)

lemma code_size_range:
  "length bytecode < 2 ^ 32 \<Longrightarrow> int (length bytecode) < 4294967296"
  by simp

lemma module_fields:
  assumes "0 \<le> ep" and "ep < 65536" and "length bytecode < 2 ^ 32"
  shows "field 0 4 (module_of ep bytecode) = ZPLC_MAGIC"
    and "field 4 2 (module_of ep bytecode) = ZPLC_VERSION_MAJOR"
    and "field 6 2 (module_of ep bytecode) = ZPLC_VERSION_MINOR"
    and "field 8 4 (module_of ep bytecode) = 0"
    and "field 12 4 (module_of ep bytecode) = 0"
    and "field 16 4 (module_of ep bytecode) = int (length bytecode)"
    and "field 20 4 (module_of ep bytecode) = 0"
    and "field 24 2 (module_of ep bytecode) = ep"
    and "field 26 2 (module_of ep bytecode) = 1"
    and "field 28 4 (module_of ep bytecode) = 0"
    and "field 32 2 (module_of ep bytecode) = 1"
    and "field 34 2 (module_of ep bytecode) = 0"
    and "field 36 4 (module_of ep bytecode) = int (length bytecode)"
  using assms(1,2) code_size_range [OF assms(3)]
  by (simp_all add: module_of_def field_le_bytes_skip field_le_bytes_here
      ZPLC_MAGIC_def ZPLC_VERSION_MAJOR_def ZPLC_VERSION_MINOR_def)

lemma module_body: "drop 40 (module_of ep bytecode) = bytecode"
  by (simp add: module_of_def length_le_bytes)

lemma magic_bytes: "take 4 (module_of ep bytecode) = [0x5A, 0x50, 0x4C, 0x43]"
proof -
  have "le_bytes 4 ZPLC_MAGIC = [0x5A, 0x50, 0x4C, 0x43]"
    by code_simp
  then show ?thesis by (simp add: module_of_def)
qed


text \<open>
  Claim C5, as stated, fails: the encoder does not return a module for every bytecode and
  entry point. \<^verbatim>\<open>.ENTRY -1\<close> assembles, to the empty bytecode with entry point -1, and
  packing that entry point into the 2-byte header field raises \<^verbatim>\<open>struct.error\<close>.
\<close>

theorem module_encoding_entry_point_counterexample:
  "assemble ''.ENTRY -1'' = Inr ([], initial_assembler\<lparr>entry_point := Entry_int (- 1)\<rparr>)
   \<and> create_zplc_file (initial_assembler\<lparr>entry_point := Entry_int (- 1)\<rparr>) [] = Inl Struct_error"
  by code_simp

text \<open>
  Claim C5, amended. When the entry point fits its 2-byte field (0..65535; a string entry
  point counts as 0) and the bytecode is shorter than \<open>2^32\<close> bytes, the encoder returns
  the 32-byte little-endian header (magic \<^verbatim>\<open>ZPLC\<close>, version 1.0, flags 0, checksum 0, code
  size, data size 0, entry point, segment count 1, reserved 0), one 8-byte segment entry
  (type 1, flags 0, size of the code), and the bytecode itself. Otherwise packing fails
  with \<^verbatim>\<open>struct.error\<close>. The encoder is a function of the bytecode and the entry point, so
  encoding twice gives identical bytes.
\<close>

theorem module_layout:
  assumes "ep = (case entry_point st of Entry_int v \<Rightarrow> v | Entry_str _ \<Rightarrow> 0)"
  shows "(0 \<le> ep \<and> ep < 65536 \<and> length bytecode < 2 ^ 32 \<longrightarrow>
           (\<exists>m. create_zplc_file st bytecode = Inr m
              \<and> length m = 32 + 8 + length bytecode
              \<and> take 4 m = [0x5A, 0x50, 0x4C, 0x43]
              \<and> field 0 4 m = 0x434C505A \<and> field 4 2 m = 1 \<and> field 6 2 m = 0
              \<and> field 8 4 m = 0 \<and> field 12 4 m = 0
              \<and> field 16 4 m = int (length bytecode) \<and> field 20 4 m = 0
              \<and> field 24 2 m = ep \<and> field 26 2 m = 1 \<and> field 28 4 m = 0
              \<and> field 32 2 m = 1 \<and> field 34 2 m = 0
              \<and> field 36 4 m = int (length bytecode)
              \<and> drop 40 m = bytecode))
       \<and> (ep < 0 \<or> 65536 \<le> ep \<or> 2 ^ 32 \<le> length bytecode \<longrightarrow>
            create_zplc_file st bytecode = Inl Struct_error)"
proof (intro conjI impI)
  assume r: "0 \<le> ep \<and> ep < 65536 \<and> length bytecode < 2 ^ 32"
  then have c: "create_zplc_file st bytecode = Inr (module_of ep bytecode)"
    using assms by (simp add: create_zplc_file_eq)
  from r have f: "0 \<le> ep" "ep < 65536" "length bytecode < 2 ^ 32"
    by simp_all
  show "\<exists>m. create_zplc_file st bytecode = Inr m
              \<and> length m = 32 + 8 + length bytecode
              \<and> take 4 m = [0x5A, 0x50, 0x4C, 0x43]
              \<and> field 0 4 m = 0x434C505A \<and> field 4 2 m = 1 \<and> field 6 2 m = 0
              \<and> field 8 4 m = 0 \<and> field 12 4 m = 0
              \<and> field 16 4 m = int (length bytecode) \<and> field 20 4 m = 0
              \<and> field 24 2 m = ep \<and> field 26 2 m = 1 \<and> field 28 4 m = 0
              \<and> field 32 2 m = 1 \<and> field 34 2 m = 0
              \<and> field 36 4 m = int (length bytecode)
              \<and> drop 40 m = bytecode"
    using c module_fields [OF f] length_module_of [of ep bytecode] magic_bytes [of ep bytecode]
      module_body [of ep bytecode]
    by (simp add: ZPLC_MAGIC_def ZPLC_VERSION_MAJOR_def ZPLC_VERSION_MINOR_def)
next
  assume "ep < 0 \<or> 65536 \<le> ep \<or> 2 ^ 32 \<le> length bytecode"
  then show "create_zplc_file st bytecode = Inl Struct_error"
    using assms by (auto simp add: create_zplc_file_eq)
qed

theorem module_layout_witness:
  "create_zplc_file initial_assembler [0x40, 10, 0x01]
     = Inr ([0x5A, 0x50, 0x4C, 0x43, 1, 0, 0, 0, 0, 0, 0, 0, 0, 0, 0, 0,
             3, 0, 0, 0, 0, 0, 0, 0, 0, 0, 1, 0, 0, 0, 0, 0,
             1, 0, 0, 0, 3, 0, 0, 0,
             0x40, 10, 0x01])
   \<and> create_zplc_file (initial_assembler\<lparr>entry_point := Entry_int (- 1)\<rparr>) [0x40, 10, 0x01]
       = Inl Struct_error"
proof -
  have a: "create_zplc_file initial_assembler [0x40, 10, 0x01]
     = Inr ([0x5A, 0x50, 0x4C, 0x43, 1, 0, 0, 0, 0, 0, 0, 0, 0, 0, 0, 0,
             3, 0, 0, 0, 0, 0, 0, 0, 0, 0, 1, 0, 0, 0, 0, 0,
             1, 0, 0, 0, 3, 0, 0, 0,
             0x40, 10, 0x01])"
    by code_simp
  have "create_zplc_file (initial_assembler\<lparr>entry_point := Entry_int (- 1)\<rparr>) [0x40, 10, 0x01]
       = Inl Struct_error"
    using module_layout [of "- 1" "initial_assembler\<lparr>entry_point := Entry_int (- 1)\<rparr>"
        "[0x40, 10, 0x01]"]
    by simp
  with a show ?thesis by (rule conjI)
qed

section \<open>Order of the errors\<close>

lemma define_bytes_error:
  "define_bytes vs st = Inl e \<Longrightarrow> e = ValueError"
  by (simp add: define_bytes_eq split: if_splits)

lemma handle_directive_error:
  assumes "handle_directive d operand_text ln st = Inl (AssemblerError m n t)"
  shows "\<not> pass2_message m \<and> n = ln"
  using assms
  by (auto simp add: handle_directive_def Let_def pass2_message_def
      split: if_splits option.splits dest: define_bytes_error)

lemma parse_operand_error:
  assumes "parse_operand s ln = Inl (AssemblerError m n t)"
  shows "\<not> pass2_message m \<and> n = ln"
  using assms
  by (auto simp add: parse_operand_def Let_def pass2_message_def split: if_splits option.splits)

lemma parse_statement_error:
  assumes "parse_statement line ln st = Inl (AssemblerError m n t)"
  shows "\<not> pass2_message m \<and> n = ln"
proof (cases "startswith (py_upper (fst (split_first line))) ''.''")
  case True
  then show ?thesis
    using assms handle_directive_error by (simp add: parse_statement_def Let_def)
next
  case False
  then show ?thesis
    using assms parse_operand_error [of "snd (split_first line)" ln m n t]
    by (auto simp add: parse_statement_def Let_def pass2_message_def
        split: option.splits if_splits sum.splits)
qed

lemma parse_line_error:
  assumes "parse_line line ln st = Inl (AssemblerError m n t)"
  shows "\<not> pass2_message m \<and> n = ln"
  using assms parse_statement_error
  by (auto simp add: parse_line_def Let_def pass2_message_def
      split: if_splits option.splits prod.splits)

lemma parse_lines_Inr_each:
  assumes "parse_lines ls st = Inr st'" and "k < length ls"
  shows "\<exists>s s'. parse_lines (take k ls) st = Inr s
           \<and> parse_line (snd (ls ! k)) (fst (ls ! k)) s = Inr s'"
  using assms
proof (induction ls arbitrary: st k)
  case Nil
  then show ?case by simp
next
  case (Cons a ls)
  obtain ln line where a: "a = (ln, line)" by (cases a)
  from Cons.prems(1) obtain s1 where s1: "parse_line line ln st = Inr s1"
    and r: "parse_lines ls s1 = Inr st'"
    by (auto simp add: a split: sum.splits failure.splits)
  show ?case
  proof (cases k)
    case 0
    then show ?thesis using s1 by (simp add: a)
  next
    case (Suc j)
    with Cons.prems(2) have "j < length ls" by simp
    from Cons.IH [OF r this] show ?thesis
      using s1 by (simp add: a Suc)
  qed
qed

lemma parse_lines_Inl_first:
  assumes "parse_lines ls st = Inl (AssemblerError m n t)"
  shows "\<exists>k s. k < length ls \<and> parse_lines (take k ls) st = Inr s
           \<and> (parse_line (snd (ls ! k)) (fst (ls ! k)) s = Inl (AssemblerError m n t)
               \<or> m = Wrapped_exception)"
  using assms
proof (induction ls arbitrary: st)
  case Nil
  then show ?case by simp
next
  case (Cons a ls)
  obtain ln line where a: "a = (ln, line)" by (cases a)
  show ?case
  proof (cases "parse_line line ln st")
    case (Inl e)
    with Cons.prems have "parse_line line ln st = Inl (AssemblerError m n t) \<or> m = Wrapped_exception"
      by (cases e) (auto simp add: a)
    then have "0 < length (a # ls) \<and> parse_lines (take 0 (a # ls)) st = Inr st
        \<and> (parse_line (snd ((a # ls) ! 0)) (fst ((a # ls) ! 0)) st = Inl (AssemblerError m n t)
            \<or> m = Wrapped_exception)"
      by (simp add: a)
    then show ?thesis by blast
  next
    case (Inr s1)
    with Cons.prems have "parse_lines ls s1 = Inl (AssemblerError m n t)"
      by (simp add: a)
    from Cons.IH [OF this] obtain k s where
      k: "k < length ls" and p: "parse_lines (take k ls) s1 = Inr s" and
      e: "parse_line (snd (ls ! k)) (fst (ls ! k)) s = Inl (AssemblerError m n t)
          \<or> m = Wrapped_exception"
      by blast
    have "Suc k < length (a # ls) \<and> parse_lines (take (Suc k) (a # ls)) st = Inr s
        \<and> (parse_line (snd ((a # ls) ! Suc k)) (fst ((a # ls) ! Suc k)) s
              = Inl (AssemblerError m n t) \<or> m = Wrapped_exception)"
      using k p e Inr by (simp add: a)
    then show ?thesis by blast
  qed
qed

lemma parse_lines_error_kind:
  assumes "parse_lines ls st = Inl e"
  shows "\<exists>m n t. e = AssemblerError m n t \<and> \<not> pass2_message m"
  using assms
proof (induction ls arbitrary: st)
  case Nil
  then show ?case by simp
next
  case (Cons a ls)
  obtain ln line where a: "a = (ln, line)" by (cases a)
  show ?case
  proof (cases "parse_line line ln st")
    case (Inl f)
    show ?thesis
    proof (cases f)
      case (AssemblerError m n t)
      with Inl Cons.prems have "e = AssemblerError m n t"
        by (simp add: a)
      moreover from AssemblerError Inl parse_line_error [of line ln st m n t]
      have "\<not> pass2_message m" by simp
      ultimately show ?thesis by blast
    next
      case ValueError
      with Inl Cons.prems have "e = AssemblerError Wrapped_exception ln line"
        by (simp add: a)
      moreover have "\<not> pass2_message Wrapped_exception"
        by (simp add: pass2_message_def)
      ultimately show ?thesis by blast
    next
      case Struct_error
      with Inl Cons.prems have "e = AssemblerError Wrapped_exception ln line"
        by (simp add: a)
      moreover have "\<not> pass2_message Wrapped_exception"
        by (simp add: pass2_message_def)
      ultimately show ?thesis by blast
    qed
  next
    case (Inr s1)
    with Cons.prems Cons.IH [of s1] show ?thesis by (simp add: a)
  qed
qed

lemma resolve_instruction_error:
  assumes "resolve_instruction lbls instr = Inl e"
  shows "\<exists>m n t. e = AssemblerError m n t \<and> pass2_message m"
  using assms
  by (auto simp add: resolve_instruction_def Let_def pass2_message_def
      split: option.splits if_splits)

lemma resolve_instructions_error:
  assumes "resolve_instructions lbls instrs = Inl e"
  shows "\<exists>m n t. e = AssemblerError m n t \<and> pass2_message m"
  using assms
proof (induction instrs)
  case Nil
  then show ?case by simp
next
  case (Cons instr rest)
  then show ?case
    using resolve_instruction_error [of lbls instr e]
    by (auto split: sum.splits)
qed

lemma resolve_labels_error:
  assumes "resolve_labels st = Inl e"
  shows "\<exists>m n t. e = AssemblerError m n t \<and> pass2_message m"
  using assms resolve_instructions_error [of "map_of (labels st)" "instructions st" e]
  by (auto simp add: resolve_labels_def pass2_message_def
      split: sum.splits entry.splits option.splits)

lemma enumerate1_nth:
  "k < length xs \<Longrightarrow> enumerate1 xs ! k = (Suc k, xs ! k)"
  by (simp add: enumerate1_def del: upt_Suc)

lemma length_enumerate1: "length (enumerate1 xs) = length xs"
  by (simp add: enumerate1_def del: upt_Suc)

text \<open>
  Claim C8, as stated, fails for the duplicate-label error: it is raised in pass 1, at the
  line of the second definition, before the later lines are looked at. In the source below
  line 2 re-defines \<^verbatim>\<open>L\<close> and line 3 holds an unknown mnemonic; assembly reports the
  duplicate label of line 2, and the syntax error of line 3 stays unreported.
\<close>

theorem duplicate_label_before_syntax_error_counterexample:
  "assemble ''L:\<newline>L:\<newline>BOGUS'' = Inl (AssemblerError (Duplicate_label ''L'') 2 ''L:'')
   \<and> parse_line ''L:'' 1 initial_assembler
       = Inr (initial_assembler\<lparr>labels :=
               [(''L'', \<lparr>label.name = ''L'', label.address = 0, label.line_num = 1\<rparr>)]\<rparr>)
   \<and> parse_line ''BOGUS'' 3
         (initial_assembler\<lparr>labels :=
               [(''L'', \<lparr>label.name = ''L'', label.address = 0, label.line_num = 1\<rparr>)]\<rparr>)
       = Inl (AssemblerError (Unknown_instruction ''BOGUS'') 3 ''BOGUS'')"
  by code_simp

lemma error_pass_order:
  assumes "assemble source = Inl (AssemblerError m n t)"
  shows "(pass2_message m \<longrightarrow>
            (\<exists>st. pass1 source = Inr st \<and> resolve_labels st = Inl (AssemblerError m n t))
          \<and> (\<forall>k < length (splitlines source). \<exists>s s'.
                parse_lines (take k (enumerate1 (splitlines source))) initial_assembler = Inr s
                \<and> parse_line (splitlines source ! k) (Suc k) s = Inr s'))
       \<and> (\<forall>x. m = Duplicate_label x \<longrightarrow>
            (\<exists>k s. k < length (splitlines source) \<and> n = Suc k
               \<and> parse_lines (take k (enumerate1 (splitlines source))) initial_assembler = Inr s
               \<and> parse_line (splitlines source ! k) (Suc k) s
                   = Inl (AssemblerError (Duplicate_label x) n t)))"
proof (intro conjI impI allI)
  assume p2: "pass2_message m"
  have "\<exists>st. pass1 source = Inr st"
  proof (cases "pass1 source")
    case (Inl e)
    with assms have "e = AssemblerError m n t"
      by (simp add: assemble_def)
    with Inl parse_lines_error_kind [of "enumerate1 (splitlines source)" initial_assembler e] p2
    show ?thesis by (simp add: pass1_def)
  next
    case (Inr st)
    then show ?thesis by blast
  qed
  then obtain st where st: "pass1 source = Inr st" ..
  with assms have r: "resolve_labels st = Inl (AssemblerError m n t)"
    by (simp add: assemble_def split: sum.splits)
  from st r show "\<exists>st. pass1 source = Inr st \<and> resolve_labels st = Inl (AssemblerError m n t)"
    by blast
  fix k
  assume k: "k < length (splitlines source)"
  from st have "parse_lines (enumerate1 (splitlines source)) initial_assembler = Inr st"
    by (simp add: pass1_def)
  from parse_lines_Inr_each [OF this, of k] k
  show "\<exists>s s'. parse_lines (take k (enumerate1 (splitlines source))) initial_assembler = Inr s
                \<and> parse_line (splitlines source ! k) (Suc k) s = Inr s'"
    by (simp add: length_enumerate1 enumerate1_nth)
next
  fix x
  assume d: "m = Duplicate_label x"
  then have np: "\<not> pass2_message m"
    by (simp add: pass2_message_def)
  have "pass1 source = Inl (AssemblerError m n t)"
  proof (cases "pass1 source")
    case (Inl e)
    with assms show ?thesis by (simp add: assemble_def)
  next
    case (Inr st)
    with assms have "resolve_labels st = Inl (AssemblerError m n t)"
      by (simp add: assemble_def split: sum.splits)
    from resolve_labels_error [OF this] np show ?thesis by simp
  qed
  then have "parse_lines (enumerate1 (splitlines source)) initial_assembler
      = Inl (AssemblerError m n t)"
    by (simp add: pass1_def)
  from parse_lines_Inl_first [OF this] obtain k s where
    k: "k < length (splitlines source)" and
    s: "parse_lines (take k (enumerate1 (splitlines source))) initial_assembler = Inr s" and
    e: "parse_line (splitlines source ! k) (Suc k) s = Inl (AssemblerError m n t)"
    using d by (auto simp add: length_enumerate1 enumerate1_nth)
  from parse_line_error [OF e] have "n = Suc k" by simp
  with k s e d
  show "\<exists>k s. k < length (splitlines source) \<and> n = Suc k
               \<and> parse_lines (take k (enumerate1 (splitlines source))) initial_assembler = Inr s
               \<and> parse_line (splitlines source ! k) (Suc k) s
                   = Inl (AssemblerError (Duplicate_label x) n t)"
    by blast
qed


lemma resolve_instructions_Inr_member:
  assumes "resolve_instructions lbls instrs = Inr instrs'" and "instr \<in> set instrs"
  shows "\<exists>instr'. resolve_instruction lbls instr = Inr instr'"
proof -
  from assms(2) obtain i where "i < length instrs" and "instrs ! i = instr"
    by (auto simp add: in_set_conv_nth)
  with resolve_instructions_nth [OF assms(1)] show ?thesis by auto
qed

lemma assemble_after_pass1:
  assumes "pass1 source = Inr st"
  shows "assemble source =
           (case resolve_labels st of Inl e \<Rightarrow> Inl e | Inr st2 \<Rightarrow> Inr (emit_bytecode st2, st2))"
  using assms by (simp add: assemble_def)

lemma unresolvable_instruction_is_fatal:
  assumes "pass1 source = Inr st" and "instr \<in> set (instructions st)"
    and "resolve_instruction (map_of (labels st)) instr = Inl e"
  shows "\<exists>m n t. assemble source = Inl (AssemblerError m n t) \<and> pass2_message m"
proof (cases "resolve_labels st")
  case (Inl f)
  from resolve_labels_error [OF this] Inl show ?thesis
    using assms(1) by (auto simp add: assemble_after_pass1)
next
  case (Inr st2)
  from resolve_instructions_Inr_member [OF resolve_labels_instructions [OF Inr] assms(2)] assms(3)
  show ?thesis by simp
qed

lemma undefined_label_is_fatal:
  assumes "pass1 source = Inr st" and "instr \<in> set (instructions st)"
    and "operand_label instr = Some l" and "map_of (labels st) (py_upper l) = None"
  shows "\<exists>m n t. assemble source = Inl (AssemblerError m n t) \<and> pass2_message m"
proof -
  have "l \<noteq> []"
    using pass1_nonempty [OF assms(1)] assms(2,3) by (auto simp add: labels_nonempty_def)
  then have "resolve_instruction (map_of (labels st)) instr
      = Inl (AssemblerError (Undefined_label (py_upper l)) (line_num instr) [])"
    using assms(3,4) by (simp add: resolve_instruction_def Let_def)
  from unresolvable_instruction_is_fatal [OF assms(1,2) this] show ?thesis .
qed

lemma relative_range_is_fatal:
  assumes "pass1 source = Inr st" and "instr \<in> set (instructions st)"
    and "is_relative_jump (opcode instr)"
    and "operand_label instr = Some l" and "map_of (labels st) (py_upper l) = Some lab"
    and "label.address lab - (address instr + 2) < - 128
         \<or> 127 < label.address lab - (address instr + 2)"
  shows "\<exists>m n t. assemble source = Inl (AssemblerError m n t) \<and> pass2_message m"
proof -
  have "l \<noteq> []"
    using pass1_nonempty [OF assms(1)] assms(2,4) by (auto simp add: labels_nonempty_def)
  then have "resolve_instruction (map_of (labels st)) instr
      = Inl (AssemblerError (Relative_jump_out_of_range (py_upper l)
               (label.address lab - (address instr + 2))) (line_num instr) [])"
    using assms(3,4,5,6) by (auto simp add: resolve_instruction_def Let_def)
  from unresolvable_instruction_is_fatal [OF assms(1,2) this] show ?thesis .
qed

lemma undefined_entry_is_fatal:
  assumes "pass1 source = Inr st" and "entry_point st = Entry_str nm"
    and "map_of (labels st) nm = None"
  shows "\<exists>m n t. assemble source = Inl (AssemblerError m n t) \<and> pass2_message m"
proof (cases "resolve_labels st")
  case (Inl f)
  from resolve_labels_error [OF this] Inl show ?thesis
    using assms(1) by (auto simp add: assemble_after_pass1)
next
  case (Inr st2)
  with assms(2,3) show ?thesis
    by (simp add: resolve_labels_def split: sum.splits)
qed

lemma parse_lines_Inl_at:
  assumes "parse_lines (take k ls) st = Inr s" and "k < length ls"
    and "parse_line (snd (ls ! k)) (fst (ls ! k)) s = Inl (AssemblerError m n t)"
  shows "parse_lines ls st = Inl (AssemblerError m n t)"
  using assms
proof (induction ls arbitrary: st k)
  case Nil
  then show ?case by simp
next
  case (Cons a ls)
  obtain ln line where a: "a = (ln, line)" by (cases a)
  show ?case
  proof (cases k)
    case 0
    with Cons.prems show ?thesis by (simp add: a)
  next
    case (Suc j)
    with Cons.prems(1) obtain s1 where s1: "parse_line line ln st = Inr s1"
      and r: "parse_lines (take j ls) s1 = Inr s"
      by (auto simp add: a split: sum.splits failure.splits)
    from Cons.prems(2,3) Suc have "j < length ls"
      and "parse_line (snd (ls ! j)) (fst (ls ! j)) s = Inl (AssemblerError m n t)"
      by simp_all
    from Cons.IH [OF r this] s1 show ?thesis by (simp add: a)
  qed
qed

lemma duplicate_label_is_fatal:
  assumes "k < length (splitlines source)"
    and "parse_lines (take k (enumerate1 (splitlines source))) initial_assembler = Inr s"
    and "label_match (py_strip (takeWhile (\<lambda>c. c \<noteq> CHR '';'') (splitlines source ! k)))
           = Some (g, rest)"
    and "map_of (labels s) (py_upper g) \<noteq> None"
  shows "assemble source
           = Inl (AssemblerError (Duplicate_label (py_upper g)) (Suc k)
                    (py_strip (takeWhile (\<lambda>c. c \<noteq> CHR '';'') (splitlines source ! k))))"
proof -
  let ?line = "py_strip (takeWhile (\<lambda>c. c \<noteq> CHR '';'') (splitlines source ! k))"
  from assms(3) have ne: "?line \<noteq> []"
    by (auto simp add: label_match_def)
  have "parse_line (splitlines source ! k) (Suc k) s
      = Inl (AssemblerError (Duplicate_label (py_upper g)) (Suc k) ?line)"
    using assms(3,4) ne by (simp add: parse_line_def Let_def)
  then have "parse_line (snd (enumerate1 (splitlines source) ! k))
               (fst (enumerate1 (splitlines source) ! k)) s
      = Inl (AssemblerError (Duplicate_label (py_upper g)) (Suc k) ?line)"
    using assms(1) by (simp add: enumerate1_nth)
  from parse_lines_Inl_at [OF assms(2) _ this] assms(1)
  have "pass1 source = Inl (AssemblerError (Duplicate_label (py_upper g)) (Suc k) ?line)"
    by (simp add: pass1_def length_enumerate1)
  then show ?thesis by (simp add: assemble_def)
qed

text \<open>
  Claim C8, amended. An undefined label, an out-of-range relative offset and an undefined
  entry point label are fatal: a program that parses and has an instruction referring to a
  label that is not defined, or a relative branch whose offset lies outside -128..127, or a
  symbolic entry point that is not defined, does not assemble; the error is one of pass 2.
  A re-defined label is fatal as well: a line that defines a label already defined by an
  earlier line, all earlier lines having parsed, makes assembly fail with the duplicate-label
  error of that line. As to the order: an error of pass 2 is reported only after pass 1 has
  gone through the whole source, every line having parsed without any error; a duplicate
  label is an error of pass 1, reported at the line of the re-definition, every earlier line
  having parsed without error, and the later lines have not been examined.
\<close>

theorem link_errors_fatal_in_pass_order:
  "(\<forall>st instr l.
      pass1 source = Inr st \<and> instr \<in> set (instructions st)
      \<and> operand_label instr = Some l \<and> map_of (labels st) (py_upper l) = None
      \<longrightarrow> (\<exists>m n t. assemble source = Inl (AssemblerError m n t) \<and> pass2_message m))
 \<and> (\<forall>st instr l lab.
      pass1 source = Inr st \<and> instr \<in> set (instructions st)
      \<and> is_relative_jump (opcode instr)
      \<and> operand_label instr = Some l \<and> map_of (labels st) (py_upper l) = Some lab
      \<and> (label.address lab - (address instr + 2) < - 128
           \<or> 127 < label.address lab - (address instr + 2))
      \<longrightarrow> (\<exists>m n t. assemble source = Inl (AssemblerError m n t) \<and> pass2_message m))
 \<and> (\<forall>st nm.
      pass1 source = Inr st \<and> entry_point st = Entry_str nm \<and> map_of (labels st) nm = None
      \<longrightarrow> (\<exists>m n t. assemble source = Inl (AssemblerError m n t) \<and> pass2_message m))
 \<and> (\<forall>k s g rest.
      k < length (splitlines source)
      \<and> parse_lines (take k (enumerate1 (splitlines source))) initial_assembler = Inr s
      \<and> label_match (py_strip (takeWhile (\<lambda>c. c \<noteq> CHR '';'') (splitlines source ! k)))
           = Some (g, rest)
      \<and> map_of (labels s) (py_upper g) \<noteq> None
      \<longrightarrow> assemble source
           = Inl (AssemblerError (Duplicate_label (py_upper g)) (Suc k)
                    (py_strip (takeWhile (\<lambda>c. c \<noteq> CHR '';'') (splitlines source ! k)))))
 \<and> (\<forall>m n t.
      assemble source = Inl (AssemblerError m n t) \<longrightarrow>
        (pass2_message m \<longrightarrow>
            (\<exists>st. pass1 source = Inr st \<and> resolve_labels st = Inl (AssemblerError m n t))
          \<and> (\<forall>k < length (splitlines source). \<exists>s s'.
                parse_lines (take k (enumerate1 (splitlines source))) initial_assembler = Inr s
                \<and> parse_line (splitlines source ! k) (Suc k) s = Inr s'))
       \<and> (\<forall>x. m = Duplicate_label x \<longrightarrow>
            (\<exists>k s. k < length (splitlines source) \<and> n = Suc k
               \<and> parse_lines (take k (enumerate1 (splitlines source))) initial_assembler = Inr s
               \<and> parse_line (splitlines source ! k) (Suc k) s
                   = Inl (AssemblerError (Duplicate_label x) n t))))"
proof (intro conjI)
  show "\<forall>st instr l.
      pass1 source = Inr st \<and> instr \<in> set (instructions st)
      \<and> operand_label instr = Some l \<and> map_of (labels st) (py_upper l) = None
      \<longrightarrow> (\<exists>m n t. assemble source = Inl (AssemblerError m n t) \<and> pass2_message m)"
    using undefined_label_is_fatal by blast
  show "\<forall>st instr l lab.
      pass1 source = Inr st \<and> instr \<in> set (instructions st)
      \<and> is_relative_jump (opcode instr)
      \<and> operand_label instr = Some l \<and> map_of (labels st) (py_upper l) = Some lab
      \<and> (label.address lab - (address instr + 2) < - 128
           \<or> 127 < label.address lab - (address instr + 2))
      \<longrightarrow> (\<exists>m n t. assemble source = Inl (AssemblerError m n t) \<and> pass2_message m)"
    using relative_range_is_fatal by blast
  show "\<forall>st nm.
      pass1 source = Inr st \<and> entry_point st = Entry_str nm \<and> map_of (labels st) nm = None
      \<longrightarrow> (\<exists>m n t. assemble source = Inl (AssemblerError m n t) \<and> pass2_message m)"
    using undefined_entry_is_fatal by blast
  show "\<forall>k s g rest.
      k < length (splitlines source)
      \<and> parse_lines (take k (enumerate1 (splitlines source))) initial_assembler = Inr s
      \<and> label_match (py_strip (takeWhile (\<lambda>c. c \<noteq> CHR '';'') (splitlines source ! k)))
           = Some (g, rest)
      \<and> map_of (labels s) (py_upper g) \<noteq> None
      \<longrightarrow> assemble source
           = Inl (AssemblerError (Duplicate_label (py_upper g)) (Suc k)
                    (py_strip (takeWhile (\<lambda>c. c \<noteq> CHR '';'') (splitlines source ! k))))"
    using duplicate_label_is_fatal by blast
  show "\<forall>m n t.
      assemble source = Inl (AssemblerError m n t) \<longrightarrow>
        (pass2_message m \<longrightarrow>
            (\<exists>st. pass1 source = Inr st \<and> resolve_labels st = Inl (AssemblerError m n t))
          \<and> (\<forall>k < length (splitlines source). \<exists>s s'.
                parse_lines (take k (enumerate1 (splitlines source))) initial_assembler = Inr s
                \<and> parse_line (splitlines source ! k) (Suc k) s = Inr s'))
       \<and> (\<forall>x. m = Duplicate_label x \<longrightarrow>
            (\<exists>k s. k < length (splitlines source) \<and> n = Suc k
               \<and> parse_lines (take k (enumerate1 (splitlines source))) initial_assembler = Inr s
               \<and> parse_line (splitlines source ! k) (Suc k) s
                   = Inl (AssemblerError (Duplicate_label x) n t)))"
    using error_pass_order by blast
qed

theorem link_errors_fatal_in_pass_order_witness:
  "pass1 ''NOP\<newline>JR nowhere''
     = Inr \<lparr>instructions =
              [\<lparr>opcode = Opcode_NOP, operand = None, operand_label = None,
                line_num = 1, address = 0\<rparr>,
               \<lparr>opcode = Opcode_JR, operand = None, operand_label = Some ''nowhere'',
                line_num = 2, address = 1\<rparr>],
            labels = [], entry_point = Entry_int 0, current_address = 3\<rparr>
   \<and> assemble ''NOP\<newline>JR nowhere'' = Inl (AssemblerError (Undefined_label ''NOWHERE'') 2 [])
   \<and> (\<exists>m n t. assemble ''NOP\<newline>JR nowhere'' = Inl (AssemblerError m n t) \<and> pass2_message m)
   \<and> (\<exists>st. pass1 ''NOP\<newline>JR nowhere'' = Inr st
          \<and> resolve_labels st = Inl (AssemblerError (Undefined_label ''NOWHERE'') 2 []))
   \<and> assemble ''L:\<newline>L:\<newline>BOGUS'' = Inl (AssemblerError (Duplicate_label ''L'') 2 ''L:'')"
proof -
  let ?st = "\<lparr>instructions =
              [\<lparr>opcode = Opcode_NOP, operand = None, operand_label = None,
                line_num = 1, address = 0\<rparr>,
               \<lparr>opcode = Opcode_JR, operand = None, operand_label = Some ''nowhere'',
                line_num = 2, address = 1\<rparr>],
            labels = [], entry_point = Entry_int 0, current_address = 3\<rparr>"
  let ?jr = "\<lparr>opcode = Opcode_JR, operand = None, operand_label = Some ''nowhere'',
                line_num = 2, address = 1\<rparr>"
  have p: "pass1 ''NOP\<newline>JR nowhere'' = Inr ?st"
    by code_simp
  have a: "assemble ''NOP\<newline>JR nowhere'' = Inl (AssemblerError (Undefined_label ''NOWHERE'') 2 [])"
    by code_simp
  have m: "pass2_message (Undefined_label ''NOWHERE'')"
    by (simp add: pass2_message_def)
  have h: "pass1 ''NOP\<newline>JR nowhere'' = Inr ?st \<and> ?jr \<in> set (instructions ?st)
      \<and> operand_label ?jr = Some ''nowhere''
      \<and> map_of (labels ?st) (py_upper ''nowhere'') = None"
    using p by simp
  note c1 = link_errors_fatal_in_pass_order [of "''NOP\<newline>JR nowhere''", THEN conjunct1,
      rule_format]
  note c5 = link_errors_fatal_in_pass_order [of "''NOP\<newline>JR nowhere''", THEN conjunct2,
      THEN conjunct2, THEN conjunct2, THEN conjunct2, rule_format]
  from c1 [OF h]
  have f: "\<exists>m n t. assemble ''NOP\<newline>JR nowhere'' = Inl (AssemblerError m n t) \<and> pass2_message m" .
  from c5 [OF a, THEN conjunct1, rule_format, OF m, THEN conjunct1]
  have o: "\<exists>st. pass1 ''NOP\<newline>JR nowhere'' = Inr st
          \<and> resolve_labels st = Inl (AssemblerError (Undefined_label ''NOWHERE'') 2 [])" .
  have lines: "splitlines ''L:\<newline>L:\<newline>BOGUS'' = [''L:'', ''L:'', ''BOGUS'']"
    by code_simp
  have d: "1 < length (splitlines ''L:\<newline>L:\<newline>BOGUS'')
      \<and> parse_lines (take 1 (enumerate1 (splitlines ''L:\<newline>L:\<newline>BOGUS''))) initial_assembler
          = Inr (initial_assembler\<lparr>labels :=
                   [(''L'', \<lparr>label.name = ''L'', label.address = 0, label.line_num = 1\<rparr>)]\<rparr>)
      \<and> label_match (py_strip (takeWhile (\<lambda>c. c \<noteq> CHR '';'')
            (splitlines ''L:\<newline>L:\<newline>BOGUS'' ! 1))) = Some (''L'', [])
      \<and> map_of (labels (initial_assembler\<lparr>labels :=
                   [(''L'', \<lparr>label.name = ''L'', label.address = 0, label.line_num = 1\<rparr>)]\<rparr>))
            (py_upper ''L'') \<noteq> None"
    unfolding lines by code_simp
  have u: "py_upper ''L'' = ''L''"
    and s: "py_strip (takeWhile (\<lambda>c. c \<noteq> CHR '';'') (splitlines ''L:\<newline>L:\<newline>BOGUS'' ! 1)) = ''L:''"
    unfolding lines by code_simp+
  note c4 = link_errors_fatal_in_pass_order [of "''L:\<newline>L:\<newline>BOGUS''", THEN conjunct2,
      THEN conjunct2, THEN conjunct2, THEN conjunct1, rule_format]
  from c4 [OF d]
  have "assemble ''L:\<newline>L:\<newline>BOGUS''
      = Inl (AssemblerError (Duplicate_label (py_upper ''L'')) (Suc 1)
               (py_strip (takeWhile (\<lambda>c. c \<noteq> CHR '';'') (splitlines ''L:\<newline>L:\<newline>BOGUS'' ! 1))))" .
  then have g: "assemble ''L:\<newline>L:\<newline>BOGUS'' = Inl (AssemblerError (Duplicate_label ''L'') 2 ''L:'')"
    unfolding u s by simp
  from p a f o g show ?thesis by (intro conjI)
qed

section \<open>The transport client\<close>

lemma send_fields:
  "fst (send cmd w s) = reply s"
  "incoming (snd (send cmd w s)) = drop 1 (incoming s)"
  "written (snd (send cmd w s)) = written s @ [wire cmd]"
  "printed (snd (send cmd w s)) = printed s"
  by (simp_all add: send_def reply_def wire_def split: list.splits)

lemma print_fields:
  "incoming (print text s) = incoming s"
  "written (print text s) = written s"
  "printed (print text s) = printed s @ [text]"
  by (simp_all add: print_def)

lemma contains_Nil: "contains ''OK:'' [] = False"
  by simp

lemma reply_no_token:
  assumes "\<forall>r \<in> set (take (Suc n) (incoming s)). \<not> contains ''OK:'' r"
  shows "\<not> contains ''OK:'' (reply s)"
  using assms by (cases "incoming s") (simp_all add: reply_def)

lemma load_attempts_fail:
  assumes "\<forall>r \<in> set (take (length attempts) (incoming s)). \<not> contains ''OK:'' r"
  shows "\<exists>resp s'. load_attempts attempts n resp0 s = (False, resp, s')
           \<and> written s' = written s @ replicate (length attempts) (wire (''zplc load '' @ str_nat n))
           \<and> incoming s' = drop (length attempts) (incoming s)
           \<and> printed s' = printed s
                @ map (\<lambda>a. ''WARN: zplc load retry '' @ str_nat (a + 1)) attempts"
  using assms
proof (induction attempts arbitrary: s resp0)
  case Nil
  then show ?case by simp
next
  case (Cons a attempts)
  define s1 where "s1 = snd (send (''zplc load '' @ str_nat n) ''OK:'' s)"
  define s2 where "s2 = print (''WARN: zplc load retry '' @ str_nat (a + 1)) s1"
  have no: "\<not> contains ''OK:'' (reply s)"
    using reply_no_token [of "length attempts" s] Cons.prems by simp
  have inc: "incoming s2 = drop 1 (incoming s)"
    by (simp add: s2_def s1_def print_fields send_fields)
  have "\<forall>r \<in> set (take (length attempts) (incoming s2)). \<not> contains ''OK:'' r"
    using Cons.prems inc by (cases "incoming s") simp_all
  from Cons.IH [OF this, of "reply s"] obtain resp s' where
    r: "load_attempts attempts n (reply s) s2 = (False, resp, s')" and
    w: "written s' = written s2 @ replicate (length attempts) (wire (''zplc load '' @ str_nat n))" and
    i: "incoming s' = drop (length attempts) (incoming s2)" and
    p: "printed s' = printed s2 @ map (\<lambda>a. ''WARN: zplc load retry '' @ str_nat (a + 1)) attempts"
    by blast
  have step: "load_attempts (a # attempts) n resp0 s = load_attempts attempts n (reply s) s2"
    using no by (simp add: case_prod_unfold send_fields(1) s2_def s1_def)
  have "written s2 = written s @ [wire (''zplc load '' @ str_nat n)]"
    and "printed s2 = printed s @ [''WARN: zplc load retry '' @ str_nat (a + 1)]"
    by (simp_all add: s2_def s1_def print_fields send_fields)
  with step r w i p inc show ?case
    by (simp add: replicate_app_Cons_same)
qed

text \<open>
  Claim C6, as stated, fails: no error is raised. With a device that never answers, the three
  \<^verbatim>\<open>zplc load\<close> attempts fail and \<^verbatim>\<open>upload_bytecode\<close> returns normally, having printed three
  warnings and one error line.
\<close>

theorem upload_load_failure_counterexample:
  "upload_bytecode [1, 2, 255] \<lparr>incoming = [], written = [], printed = []\<rparr>
     = Inr \<lparr>incoming = [],
            written = [wire ''zplc stop'', wire ''zplc reset'', wire ''zplc load 3'',
                       wire ''zplc load 3'', wire ''zplc load 3''],
            printed = [''WARN: zplc load retry 1'', ''WARN: zplc load retry 2'',
                       ''WARN: zplc load retry 3'', ''ERROR: zplc load failed. Resp: '']\<rparr>"
  by code_simp

text \<open>
  Claim C6, amended. The responses to the three \<^verbatim>\<open>zplc load\<close> attempts are the third to
  fifth responses of the session (\<^verbatim>\<open>zplc stop\<close> and \<^verbatim>\<open>zplc reset\<close> take the first two). If
  none of them holds the success token \<^verbatim>\<open>OK:\<close>, then for every bytecode the upload returns
  normally, raising nothing; it has written \<^verbatim>\<open>zplc stop\<close>, \<^verbatim>\<open>zplc reset\<close> and three times
  \<^verbatim>\<open>zplc load\<close> and nothing else, so no data chunk; and it has printed the three warnings
  and the line \<^verbatim>\<open>ERROR: zplc load failed\<close> with the last response.
\<close>

theorem upload_load_failure_returns:
  assumes "\<forall>r \<in> set (take 3 (drop 2 (incoming s))). \<not> contains ''OK:'' r"
  shows "\<exists>s' resp. upload_bytecode bytecode s = Inr s'
           \<and> written s' = written s
                @ [wire ''zplc stop'', wire ''zplc reset'',
                   wire (''zplc load '' @ str_nat (length bytecode)),
                   wire (''zplc load '' @ str_nat (length bytecode)),
                   wire (''zplc load '' @ str_nat (length bytecode))]
           \<and> printed s' = printed s
                @ [''WARN: zplc load retry 1'', ''WARN: zplc load retry 2'',
                   ''WARN: zplc load retry 3'',
                   ''ERROR: zplc load failed. Resp: '' @ resp]"
proof -
  define s1 where "s1 = snd (send ''zplc stop'' prompt s)"
  define s2 where "s2 = snd (send ''zplc reset'' prompt s1)"
  have inc: "incoming s2 = drop 2 (incoming s)"
    by (simp add: s2_def s1_def send_fields numeral_2_eq_2)
  have "\<forall>r \<in> set (take (length [0 ..< 3]) (incoming s2)). \<not> contains ''OK:'' r"
    using assms inc by simp
  from load_attempts_fail [OF this, of "length bytecode" "[]"] obtain resp s3 where
    r: "load_attempts [0 ..< 3] (length bytecode) [] s2 = (False, resp, s3)" and
    w: "written s3 = written s2
          @ replicate (length [0 ..< (3::nat)]) (wire (''zplc load '' @ str_nat (length bytecode)))" and
    p: "printed s3 = printed s2
          @ map (\<lambda>a. ''WARN: zplc load retry '' @ str_nat (a + 1)) [0 ..< 3]"
    by blast
  have u: "upload_bytecode bytecode s
      = Inr (print (''ERROR: zplc load failed. Resp: '' @ resp) s3)"
    using r by (simp add: upload_bytecode_def s1_def s2_def Let_def)
  have w2: "written s2 = written s @ [wire ''zplc stop'', wire ''zplc reset'']"
    and p2: "printed s2 = printed s"
    by (simp_all add: s2_def s1_def send_fields)
  define s4 where "s4 = print (''ERROR: zplc load failed. Resp: '' @ resp) s3"
  have a: "upload_bytecode bytecode s = Inr s4"
    using u by (simp add: s4_def)
  have b: "written s4 = written s
                @ [wire ''zplc stop'', wire ''zplc reset'',
                   wire (''zplc load '' @ str_nat (length bytecode)),
                   wire (''zplc load '' @ str_nat (length bytecode)),
                   wire (''zplc load '' @ str_nat (length bytecode))]"
    using w w2 by (simp add: s4_def print_fields numeral_3_eq_3)
  have m: "map (\<lambda>a. ''WARN: zplc load retry '' @ str_nat (a + 1)) [0 ..< 3]
      = [''WARN: zplc load retry 1'', ''WARN: zplc load retry 2'', ''WARN: zplc load retry 3'']"
    by code_simp
  have c: "printed s4 = printed s
                @ [''WARN: zplc load retry 1'', ''WARN: zplc load retry 2'',
                   ''WARN: zplc load retry 3'',
                   ''ERROR: zplc load failed. Resp: '' @ resp]"
    using p p2 unfolding m by (simp add: s4_def print_fields)
  from a b c show ?thesis by blast
qed

theorem upload_load_failure_returns_witness:
  "upload_bytecode [1, 2, 255]
       \<lparr>incoming = [''stopped'', ''reset'', ''ERR'', [], ''busy''], written = [], printed = []\<rparr>
     = Inr \<lparr>incoming = [],
            written = [wire ''zplc stop'', wire ''zplc reset'', wire ''zplc load 3'',
                       wire ''zplc load 3'', wire ''zplc load 3''],
            printed = [''WARN: zplc load retry 1'', ''WARN: zplc load retry 2'',
                       ''WARN: zplc load retry 3'', ''ERROR: zplc load failed. Resp: busy'']\<rparr>
   \<and> (\<exists>s' resp. upload_bytecode [1, 2, 255]
            \<lparr>incoming = [''stopped'', ''reset'', ''ERR'', [], ''busy''], written = [], printed = []\<rparr>
          = Inr s'
        \<and> printed s' = [''WARN: zplc load retry 1'', ''WARN: zplc load retry 2'',
                        ''WARN: zplc load retry 3'', ''ERROR: zplc load failed. Resp: '' @ resp])"
proof -
  let ?s = "\<lparr>incoming = [''stopped'', ''reset'', ''ERR'', [], ''busy''], written = [], printed = []\<rparr>"
  have e: "upload_bytecode [1, 2, 255] ?s
     = Inr \<lparr>incoming = [],
            written = [wire ''zplc stop'', wire ''zplc reset'', wire ''zplc load 3'',
                       wire ''zplc load 3'', wire ''zplc load 3''],
            printed = [''WARN: zplc load retry 1'', ''WARN: zplc load retry 2'',
                       ''WARN: zplc load retry 3'', ''ERROR: zplc load failed. Resp: busy'']\<rparr>"
    by code_simp
  have h: "\<forall>r \<in> set (take 3 (drop 2 (incoming ?s))). \<not> contains ''OK:'' r"
    by code_simp
  from upload_load_failure_returns [OF h, of "[1, 2, 255]"]
  have "\<exists>s' resp. upload_bytecode [1, 2, 255] ?s = Inr s'
        \<and> printed s' = [''WARN: zplc load retry 1'', ''WARN: zplc load retry 2'',
                        ''WARN: zplc load retry 3'', ''ERROR: zplc load failed. Resp: '' @ resp]"
    by auto
  with e show ?thesis by (rule conjI)
qed

text \<open>
  Claim C10. \<^verbatim>\<open>poke\<close> with a size other than 1, 2 or 4 raises nothing and prints nothing,
  whatever the value: it writes one \<^verbatim>\<open>zplc dbg poke\<close> command with the address and an
  empty payload, so that the command line ends with the space after the address.
\<close>

theorem poke_unsupported_width:
  assumes "sz \<noteq> 1" and "sz \<noteq> 2" and "sz \<noteq> 4"
  shows "\<exists>s'. poke addr val sz s = Inr s'
           \<and> written s' = written s @ [wire (''zplc dbg poke '' @ py_hex addr @ '' '' @ [])]
           \<and> incoming s' = drop 1 (incoming s) \<and> printed s' = printed s"
proof -
  have h: "hex_of_bytes [] = []"
    by (simp add: hex_of_bytes_def)
  have "poke addr val sz s
      = Inr (snd (send (''zplc dbg poke '' @ py_hex addr @ '' '' @ hex_of_bytes []) prompt s))"
    using assms by (simp add: poke_def)
  then show ?thesis
    unfolding h by (simp add: send_fields)
qed

theorem poke_unsupported_width_witness:
  "poke 0x1000 300 3 \<lparr>incoming = [], written = [], printed = []\<rparr>
     = Inr \<lparr>incoming = [], written = [wire ''zplc dbg poke 0x1000 ''], printed = []\<rparr>
   \<and> (\<exists>s'. poke 0x1000 300 3 \<lparr>incoming = [], written = [], printed = []\<rparr> = Inr s'
          \<and> printed s' = [])"
proof -
  have e: "poke 0x1000 300 3 \<lparr>incoming = [], written = [], printed = []\<rparr>
     = Inr \<lparr>incoming = [], written = [wire ''zplc dbg poke 0x1000 ''], printed = []\<rparr>"
    by code_simp
  from poke_unsupported_width [of 3 "0x1000" 300 "\<lparr>incoming = [], written = [], printed = []\<rparr>"]
  have "\<exists>s'. poke 0x1000 300 3 \<lparr>incoming = [], written = [], printed = []\<rparr> = Inr s'
          \<and> printed s' = []"
    by auto
  with e show ?thesis by (rule conjI)
qed

lemma split_on_acc_no_sep:
  "sep \<notin> set s \<Longrightarrow> split_on_acc sep acc s = [rev acc @ s]"
  by (induction s arbitrary: acc) auto

lemma split_on_acc_first:
  "sep \<in> set s \<Longrightarrow>
     split_on_acc sep acc s
       = (rev acc @ takeWhile (\<lambda>c. c \<noteq> sep) s)
         # split_on_acc sep [] (tl (dropWhile (\<lambda>c. c \<noteq> sep) s))"
  by (induction s arbitrary: acc) auto

lemma colon_count_rest:
  assumes "CHR '':'' \<in> set line" and "colon_count line \<le> 1"
  shows "CHR '':'' \<notin> set (tl (dropWhile (\<lambda>c. c \<noteq> CHR '':'') line))"
  using assms
proof (induction line)
  case Nil
  then show ?case by simp
next
  case (Cons c line)
  show ?case
  proof (cases "c = CHR '':''")
    case True
    with Cons.prems(2) have "length (filter (\<lambda>c. c = CHR '':'') line) = 0"
      by (simp add: colon_count_def)
    then have "CHR '':'' \<notin> set line"
      by (auto simp add: filter_empty_conv)
    with True show ?thesis by simp
  next
    case False
    with Cons show ?thesis by (simp add: colon_count_def)
  qed
qed

lemma line_bytes_one_colon:
  assumes "colon_count line \<le> 1"
  shows "line_bytes line = tokens_following_colon line"
proof (cases "CHR '':'' \<in> set line")
  case False
  then show ?thesis by (simp add: line_bytes_def tokens_following_colon_def)
next
  case True
  let ?rest = "tl (dropWhile (\<lambda>c. c \<noteq> CHR '':'') line)"
  from colon_count_rest [OF True assms] have "CHR '':'' \<notin> set ?rest" .
  then have "split_on CHR '':'' line = [takeWhile (\<lambda>c. c \<noteq> CHR '':'') line, ?rest]"
    using split_on_acc_first [OF True, of "[]"] split_on_acc_no_sep [of "CHR '':''" ?rest "[]"]
    by (simp add: split_on_def)
  with True show ?thesis
    by (simp add: line_bytes_def tokens_following_colon_def)
qed

lemma findall_hex2_hex:
  "p \<in> set (findall_hex2 s) \<Longrightarrow> is_hex (fst p) \<and> is_hex (snd p)"
  by (induction s rule: findall_hex2.induct) (auto split: if_splits)

lemma is_hex_digit_value:
  assumes "is_hex c"
  shows "\<exists>d. digit_value c = Some d \<and> d < 16"
  using assms
  by (auto simp add: is_hex_def digit_value_def is_digit_def is_lower_def is_upper_def)

lemma hex_pair_value_byte:
  assumes "is_hex (fst p)" and "is_hex (snd p)"
  shows "0 \<le> hex_pair_value p \<and> hex_pair_value p \<le> 255"
proof -
  from is_hex_digit_value [OF assms(1)] obtain a where a: "digit_value (fst p) = Some a" "a < 16"
    by blast
  from is_hex_digit_value [OF assms(2)] obtain b where b: "digit_value (snd p) = Some b" "b < 16"
    by blast
  from a b show ?thesis by (simp add: hex_pair_value_def)
qed

lemma tokens_following_colon_bytes:
  "b \<in> set (tokens_following_colon line) \<Longrightarrow> 0 \<le> b \<and> b \<le> 255"
  using findall_hex2_hex hex_pair_value_byte
  by (auto simp add: tokens_following_colon_def split: if_splits)

lemma map_line_bytes_one_colon:
  assumes "\<forall>line \<in> set ls. colon_count line \<le> 1"
  shows "map line_bytes ls = map tokens_following_colon ls"
  using assms by (simp add: line_bytes_one_colon)

lemma peek_fields:
  "fst (peek addr len s) = slice_to (concat (map line_bytes (splitlines (reply s)))) len"
  "written (snd (peek addr len s))
     = written s @ [wire (''zplc dbg peek '' @ py_hex addr @ '' '' @ py_str len)]"
  "printed (snd (peek addr len s)) = printed s"
  by (simp_all add: peek_def case_prod_unfold send_fields)

text \<open>
  Claim C7, as stated, fails in two ways. On a response line with a second colon only the
  text between the first colon and the second is scanned: in the first line below, 03 and 04
  follow a colon and are not parsed. And the result is the slice \<^verbatim>\<open>bytes_out[:length]\<close>, which
  for the requested length -1 drops the last byte only: a response of three bytes gives two
  bytes, more than the requested length.
\<close>

theorem peek_claim_counterexample:
  "fst (peek 0x1000 4 \<lparr>incoming = [''1000: 01 02 : 03 04''], written = [], printed = []\<rparr>)
     = [1, 2]
   \<and> concat (map tokens_following_colon (splitlines ''1000: 01 02 : 03 04'')) = [1, 2, 3, 4]
   \<and> fst (peek 0x1000 (- 1) \<lparr>incoming = [''1000: 01 02 03''], written = [], printed = []\<rparr>)
     = [1, 2]"
  by code_simp

text \<open>
  Claim C7, amended. For every address and every requested length that is not negative,
  when no line of the response holds more than one colon: \<^verbatim>\<open>peek\<close> writes the peek command
  and returns the first \<open>length\<close> of the bytes parsed from every two-hex-digit token following
  a colon, line after line; so it returns at most \<open>length\<close> bytes, each in 0..255, and when
  the response holds fewer bytes than requested the result is exactly that shorter list,
  not padded. Nothing is raised (the result is a list in every case) and nothing is printed.
\<close>

theorem peek_short_read:
  assumes "0 \<le> len"
    and "\<forall>line \<in> set (splitlines (reply s)). colon_count line \<le> 1"
  shows "fst (peek addr len s)
           = take (nat len) (concat (map tokens_following_colon (splitlines (reply s))))
       \<and> int (length (fst (peek addr len s))) \<le> len
       \<and> (int (length (concat (map tokens_following_colon (splitlines (reply s))))) < len
            \<longrightarrow> fst (peek addr len s)
                  = concat (map tokens_following_colon (splitlines (reply s))))
       \<and> (\<forall>b \<in> set (fst (peek addr len s)). 0 \<le> b \<and> b \<le> 255)
       \<and> written (snd (peek addr len s))
            = written s @ [wire (''zplc dbg peek '' @ py_hex addr @ '' '' @ py_str len)]
       \<and> printed (snd (peek addr len s)) = printed s"
proof -
  let ?parsed = "concat (map tokens_following_colon (splitlines (reply s)))"
  have m: "map line_bytes (splitlines (reply s))
      = map tokens_following_colon (splitlines (reply s))"
    by (rule map_line_bytes_one_colon [OF assms(2)])
  have r: "fst (peek addr len s) = take (nat len) ?parsed"
    by (simp only: peek_fields(1) m slice_to_def assms(1) if_True)
  have l: "int (length (fst (peek addr len s))) \<le> len"
    using assms(1) by (simp add: r)
  have e: "int (length ?parsed) < len \<longrightarrow> fst (peek addr len s) = ?parsed"
    by (simp add: r)
  have b: "\<forall>b \<in> set (fst (peek addr len s)). 0 \<le> b \<and> b \<le> 255"
  proof
    fix b
    assume "b \<in> set (fst (peek addr len s))"
    then have "b \<in> set ?parsed"
      unfolding r by (rule in_set_takeD)
    then show "0 \<le> b \<and> b \<le> 255"
      using tokens_following_colon_bytes by auto
  qed
  from r l e b peek_fields(2,3) [of addr len s] show ?thesis
    by (intro conjI)
qed

theorem peek_short_read_witness:
  "fst (peek 0x1000 4
         \<lparr>incoming = [''zplc dbg peek 0x1000 4\<newline>1000: 0a FF\<newline>zplc:~$''],
          written = [], printed = []\<rparr>) = [10, 255]
   \<and> concat (map tokens_following_colon
        (splitlines ''zplc dbg peek 0x1000 4\<newline>1000: 0a FF\<newline>zplc:~$'')) = [10, 255]
   \<and> written (snd (peek 0x1000 4
         \<lparr>incoming = [''zplc dbg peek 0x1000 4\<newline>1000: 0a FF\<newline>zplc:~$''],
          written = [], printed = []\<rparr>)) = [wire ''zplc dbg peek 0x1000 4'']"
proof -
  let ?s = "\<lparr>incoming = [''zplc dbg peek 0x1000 4\<newline>1000: 0a FF\<newline>zplc:~$''],
          written = [], printed = []\<rparr>"
  have h: "\<forall>line \<in> set (splitlines (reply ?s)). colon_count line \<le> 1"
    by code_simp
  have p: "concat (map tokens_following_colon (splitlines (reply ?s))) = [10, 255]"
    by code_simp
  have q: "concat (map tokens_following_colon
        (splitlines ''zplc dbg peek 0x1000 4\<newline>1000: 0a FF\<newline>zplc:~$'')) = [10, 255]"
    by code_simp
  have c: "wire (''zplc dbg peek '' @ py_hex 0x1000 @ '' '' @ py_str 4)
      = wire ''zplc dbg peek 0x1000 4''"
    by code_simp
  note t = peek_short_read [of 4 ?s "0x1000", OF _ h]
  have z: "(0::int) \<le> 4" by simp
  from t [OF z, THEN conjunct1] p
  have a: "fst (peek 0x1000 4 ?s) = [10, 255]"
    by simp
  from t [OF z, THEN conjunct2, THEN conjunct2, THEN conjunct2, THEN conjunct2, THEN conjunct1]
  have w: "written (snd (peek 0x1000 4 ?s)) = [wire ''zplc dbg peek 0x1000 4'']"
    unfolding c by simp
  from a q w show ?thesis by (intro conjI)
qed

end
